theory Spec2Isabelle
  imports Complex_Main
begin

section \<open>Python values\<close>

text \<open>
  A Python \<open>str\<close> is a sequence of Unicode code points and \<open>len\<close> counts code points,
  so a string is a list of code points here (not a list of bytes: the ellipsis that
  the X publisher appends is the single code point U+2026).  ASCII literals of the
  source are written \<open>ascii ''...''\<close>.
\<close>

type_synonym ustr = "nat list"

definition ascii :: "string \<Rightarrow> ustr" where
  "ascii s = map of_char s"

text \<open>\<open>str(n)\<close> for a non-negative integer: its decimal digits.\<close>

fun str_nat :: "nat \<Rightarrow> ustr" where
  "str_nat n = (if n < 10 then [48 + n] else str_nat (n div 10) @ [48 + n mod 10])"

text \<open>\<open>sep.join(parts)\<close>.\<close>

fun join :: "ustr \<Rightarrow> ustr list \<Rightarrow> ustr" where
  "join sep [] = []"
| "join sep [x] = x"
| "join sep (x # y # ys) = x @ sep @ join sep (y # ys)"

text \<open>
  The parts of the Python runtime that the code calls and that are tables or library
  routines outside the repository are parameters of the model:
  \<^item> \<open>uni_alnum\<close>: the Unicode database's answer to \<open>str.isalnum\<close> for one code point
    above ASCII (the regex engine's \<open>\w\<close> consults it);
  \<^item> \<open>repr_str\<close>: \<open>repr\<close> of a string (its choice of quotes and its escapes);
  \<^item> \<open>str_upper\<close>: \<open>str.upper\<close>;
  \<^item> \<open>hmac_sha1\<close>: \<open>hmac.new(key, msg, hashlib.sha1).digest()\<close> on byte strings.
\<close>

record pylib =
  uni_alnum :: "nat \<Rightarrow> bool"
  repr_str :: "ustr \<Rightarrow> ustr"
  str_upper :: "ustr \<Rightarrow> ustr"
  hmac_sha1 :: "nat list \<Rightarrow> nat list \<Rightarrow> nat list"

section \<open>validator.py\<close>

subsection \<open>The regular expressions of the marker table\<close>

text \<open>
  The markers are raw strings made of the escape \<open>\b\<close> and literal characters; this is
  the fragment of the \<open>re\<close> syntax that is parsed.  Code point 92 is the backslash, 98
  is \<open>b\<close>.
\<close>

datatype re_atom = WordBoundary | Literal nat

fun re_parse :: "ustr \<Rightarrow> re_atom list" where
  "re_parse [] = []"
| "re_parse [c] = [Literal c]"
| "re_parse (c # d # cs) =
     (if c = 92 \<and> d = 98 then WordBoundary # re_parse cs else Literal c # re_parse (d # cs))"

definition is_upper_ascii :: "nat \<Rightarrow> bool" where
  "is_upper_ascii c = (65 \<le> c \<and> c \<le> 90)"

definition is_lower_ascii :: "nat \<Rightarrow> bool" where
  "is_lower_ascii c = (97 \<le> c \<and> c \<le> 122)"

definition is_digit_ascii :: "nat \<Rightarrow> bool" where
  "is_digit_ascii c = (48 \<le> c \<and> c \<le> 57)"

definition ascii_lower :: "nat \<Rightarrow> nat" where
  "ascii_lower c = (if is_upper_ascii c then c + 32 else c)"

text \<open>
  \<open>\w\<close> on a \<open>str\<close> pattern: an alphanumeric code point or the underscore (95).
\<close>

definition is_word :: "pylib \<Rightarrow> nat \<Rightarrow> bool" where
  "is_word L c =
     (if c < 128 then is_upper_ascii c \<or> is_lower_ascii c \<or> is_digit_ascii c \<or> c = 95
      else uni_alnum L c)"

text \<open>
  A literal under \<open>re.IGNORECASE\<close>.  The literals of the markers are ASCII letters and
  the space.  An ASCII letter matches its two ASCII cases and the non-ASCII code
  points that the engine folds onto it: U+0130 and U+0131 onto \<open>i\<close>, U+017F onto \<open>s\<close>,
  U+212A onto \<open>k\<close>.  A character without case matches itself only.
\<close>

definition case_variants :: "nat \<Rightarrow> nat list" where
  "case_variants lo =
     [lo, lo - 32] @
     (if lo = 105 then [304, 305] else if lo = 115 then [383] else if lo = 107 then [8490]
      else [])"

definition lit_matches :: "nat \<Rightarrow> nat \<Rightarrow> bool" where
  "lit_matches p c =
     (if is_upper_ascii p \<or> is_lower_ascii p then c \<in> set (case_variants (ascii_lower p))
      else c = p)"

text \<open>
  \<open>\b\<close> holds where exactly one of the characters before and after the position is a
  word character; the start and the end of the string count as non-word.
\<close>

definition word_before :: "pylib \<Rightarrow> nat option \<Rightarrow> bool" where
  "word_before L prev = (case prev of None \<Rightarrow> False | Some c \<Rightarrow> is_word L c)"

definition word_after :: "pylib \<Rightarrow> ustr \<Rightarrow> bool" where
  "word_after L rest = (case rest of [] \<Rightarrow> False | c # _ \<Rightarrow> is_word L c)"

definition at_boundary :: "pylib \<Rightarrow> nat option \<Rightarrow> ustr \<Rightarrow> bool" where
  "at_boundary L prev rest = (word_before L prev \<noteq> word_after L rest)"

text \<open>
  Matching a sequence of atoms at one position: \<open>prev\<close> is the character just before
  the position, \<open>rest\<close> the input from the position on.
\<close>

fun match_here :: "pylib \<Rightarrow> re_atom list \<Rightarrow> nat option \<Rightarrow> ustr \<Rightarrow> bool" where
  "match_here L [] prev rest = True"
| "match_here L (WordBoundary # as) prev rest =
     (at_boundary L prev rest \<and> match_here L as prev rest)"
| "match_here L (Literal p # as) prev [] = False"
| "match_here L (Literal p # as) prev (c # cs) =
     (lit_matches p c \<and> match_here L as (Some c) cs)"

text \<open>\<open>re.search\<close>: a match at some position of the input, tried left to right.\<close>

fun search_from :: "pylib \<Rightarrow> re_atom list \<Rightarrow> nat option \<Rightarrow> ustr \<Rightarrow> bool" where
  "search_from L as prev [] = match_here L as prev []"
| "search_from L as prev (c # cs) =
     (match_here L as prev (c # cs) \<or> search_from L as (Some c) cs)"

definition re_search_ignorecase :: "pylib \<Rightarrow> ustr \<Rightarrow> ustr \<Rightarrow> bool" where
  "re_search_ignorecase L pattern content = search_from L (re_parse pattern) None content"

subsection \<open>The tables and the three checks\<close>

definition bs_b :: ustr where
  "bs_b = [92, 98]"

definition FABRICATION_MARKERS :: "ustr list" where
  "FABRICATION_MARKERS =
     [bs_b @ ascii ''once told me'' @ bs_b,
      bs_b @ ascii ''a mentee of mine'' @ bs_b,
      bs_b @ ascii ''I remember when'' @ bs_b,
      bs_b @ ascii ''true story'' @ bs_b,
      bs_b @ ascii ''fun fact about me'' @ bs_b]"

definition PLATFORM_MAX_CHARS :: "(ustr \<times> nat) list" where
  "PLATFORM_MAX_CHARS =
     [(ascii ''x'', 280), (ascii ''linkedin'', 3000), (ascii ''medium'', 50000)]"

record ValidationResult =
  passed :: bool
  failures :: "ustr list"

definition fabrication_failure :: "ustr \<Rightarrow> ustr" where
  "fabrication_failure pattern =
     ascii ''Fabrication marker detected: '' @ [39] @ pattern @ [39]"

text \<open>
  The indentation of the source files is damaged in places: a line that follows a
  nested block stands between two levels.  The nesting taken here is the one the
  order of the statements allows: a \<open>return\<close> that follows a loop or a conditional
  belongs to the body of the function (as \<open>return []\<close> after the conditional
  \<open>return\<close> of \<open>_check_platform_limits\<close> must), and in \<open>_call_with_retry\<close> the
  assignment of \<open>backoff\<close> follows the \<open>if\<close> of its \<open>except\<close> block.

  The loop of \<open>_check_fabrication\<close>: \<open>found\<close> is the accumulator, returned after
  the last marker.
\<close>

fun fabrication_loop :: "pylib \<Rightarrow> ustr \<Rightarrow> ustr list \<Rightarrow> ustr list \<Rightarrow> ustr list" where
  "fabrication_loop L content found [] = found"
| "fabrication_loop L content found (pattern # rest) =
     (if re_search_ignorecase L pattern content
      then fabrication_loop L content (found @ [fabrication_failure pattern]) rest
      else fabrication_loop L content found rest)"

definition check_fabrication :: "pylib \<Rightarrow> ustr \<Rightarrow> ustr list" where
  "check_fabrication L content = fabrication_loop L content [] FABRICATION_MARKERS"

definition limit_failure :: "ustr \<Rightarrow> nat \<Rightarrow> nat \<Rightarrow> ustr" where
  "limit_failure platform n max_chars =
     ascii ''Content exceeds '' @ platform @ ascii '' limit: '' @ str_nat n @
     ascii '' > '' @ str_nat max_chars @ ascii '' chars''"

text \<open>
  \<open>max_chars and len(content) > max_chars\<close>: a missing entry (\<open>None\<close>) and a limit of 0
  are both falsy and skip the comparison.
\<close>

definition check_platform_limits :: "ustr \<Rightarrow> ustr \<Rightarrow> ustr list" where
  "check_platform_limits content platform =
     (case map_of PLATFORM_MAX_CHARS platform of
        None \<Rightarrow> []
      | Some max_chars \<Rightarrow>
          if max_chars \<noteq> 0 \<and> length content > max_chars
          then [limit_failure platform (length content) max_chars]
          else [])"

text \<open>
  \<open>str.strip()\<close> removes the code points for which \<open>str.isspace\<close> holds from both
  ends.
\<close>

definition py_isspace :: "nat \<Rightarrow> bool" where
  "py_isspace c =
     ((9 \<le> c \<and> c \<le> 13) \<or> (28 \<le> c \<and> c \<le> 32) \<or> c = 133 \<or> c = 160 \<or> c = 5760 \<or>
      (8192 \<le> c \<and> c \<le> 8202) \<or> c = 8232 \<or> c = 8233 \<or> c = 8239 \<or> c = 8287 \<or>
      c = 12288)"

definition strip :: "ustr \<Rightarrow> ustr" where
  "strip s = rev (dropWhile py_isspace (rev (dropWhile py_isspace s)))"

definition check_not_empty :: "ustr \<Rightarrow> ustr list" where
  "check_not_empty content =
     (if content = [] \<or> length (strip content) < 50
      then [ascii ''Content is empty or too short'']
      else [])"

definition validate :: "pylib \<Rightarrow> ustr \<Rightarrow> ustr \<Rightarrow> ValidationResult" where
  "validate L content platform =
     (let failures0 = [];
          failures1 = failures0 @ check_fabrication L content;
          failures2 = failures1 @ check_platform_limits content platform;
          failures3 = failures2 @ check_not_empty content
      in \<lparr> passed = (length failures3 = 0), failures = failures3 \<rparr>)"

section \<open>Exceptions and effects\<close>

text \<open>
  An exception is its class and the text \<open>str(e)\<close> gives.  The classes are the ones the
  code raises or catches; \<open>APIError\<close> stands for \<open>anthropic.APIError\<close> and its subclasses
  other than \<open>RateLimitError\<close> (which the retry loop catches first), \<open>OtherException\<close>
  for every other subclass of \<open>Exception\<close> a collaborator may raise.  The texts of
  the exceptions that the runtime itself raises (\<open>IndexError\<close>, \<open>AttributeError\<close>,
  \<open>TypeError\<close>, \<open>UnicodeEncodeError\<close>) are abbreviated; no property below depends on
  them.
\<close>

datatype exn_class =
  RateLimitError | APIError | ContentGenerationError | ValueError | KeyError | IndexError
  | AttributeError | TypeError | UnicodeEncodeError | ImportError | TwitterPublisherError
  | MediumPublisherError | LinkedInPublisherError | OtherException

datatype exn = Exn exn_class ustr

fun exn_class_of :: "exn \<Rightarrow> exn_class" where
  "exn_class_of (Exn c m) = c"

fun exn_str :: "exn \<Rightarrow> ustr" where
  "exn_str (Exn c m) = m"

text \<open>
  Sequencing two steps that can raise: the exception of the first ends both.
\<close>

definition and_then :: "exn + 'a \<Rightarrow> ('a \<Rightarrow> exn + 'b) \<Rightarrow> exn + 'b" where
  "and_then m f = (case m of Inl e \<Rightarrow> Inl e | Inr x \<Rightarrow> f x)"

text \<open>
  What a task does to the outside world, in the order it does it.  A function with
  effects returns the events it caused and its outcome: \<open>Inl\<close> the exception it raised,
  \<open>Inr\<close> the value it returned.
\<close>

datatype event =
  MessagesCreate ustr
  | Sleep real
  | GetPublisher ustr
  | Publish ustr ustr
  | HttpPost ustr "(ustr \<times> ustr) list" ustr

text \<open>
  The events by which a task reaches a publisher adapter: building the adapter,
  calling its \<open>publish\<close>, and the request the X adapter sends.
\<close>

fun publisher_event :: "event \<Rightarrow> bool" where
  "publisher_event (GetPublisher p) = True"
| "publisher_event (Publish p c) = True"
| "publisher_event (HttpPost u h t) = True"
| "publisher_event (MessagesCreate p) = False"
| "publisher_event (Sleep d) = False"

datatype content_block = TextBlock ustr | OtherBlock

text \<open>
  The world outside the code.  Within one run every backend call is identified by
  its prompt and its attempt number, so the backend's answers and the random draws
  are functions of both.
  \<^item> \<open>messages_create\<close>: the outcome of \<open>client.messages.create\<close>, the content blocks of the
    response or the exception raised;
  \<^item> \<open>random_draw\<close>: the value of \<open>random.random()\<close> behind \<open>random.uniform\<close>;
  \<^item> \<open>environ\<close>: \<open>os.environ\<close>;
  \<^item> \<open>import_publishers\<close>: the exception of the first failing import in
    \<open>_get_publisher\<close>, if any;
  \<^item> \<open>linkedin_session\<close>, \<open>medium_session\<close>: the outcome of the browser session and of
    the Medium requests of \<open>publish\<close>;
  \<^item> \<open>token_hex\<close>, \<open>clock\<close>: \<open>secrets.token_hex(16)\<close> and \<open>time.time()\<close>;
  \<^item> \<open>http_post\<close>: the outcome of the POST of \<open>_post_tweet\<close>, the tweet id or the
    exception raised.
\<close>

record env =
  messages_create :: "ustr \<Rightarrow> nat \<Rightarrow> exn + content_block list"
  random_draw :: "ustr \<Rightarrow> nat \<Rightarrow> real"
  environ :: "ustr \<rightharpoonup> ustr"
  import_publishers :: "exn option"
  linkedin_session :: "ustr \<Rightarrow> exn + ustr"
  medium_session :: "ustr \<Rightarrow> ustr \<Rightarrow> exn + ustr"
  token_hex :: ustr
  clock :: real
  http_post :: "ustr \<Rightarrow> (ustr \<times> ustr) list \<Rightarrow> ustr \<Rightarrow> exn + ustr"

text \<open>
  A Python \<open>dict\<close>: an association list in insertion order.  Assigning to a key that
  is present replaces its value in place; a new key goes to the end.
\<close>

fun dict_set :: "('k \<times> 'v) list \<Rightarrow> 'k \<Rightarrow> 'v \<Rightarrow> ('k \<times> 'v) list" where
  "dict_set [] k v = [(k, v)]"
| "dict_set ((k', v') # d) k v =
     (if k' = k then (k, v) # d else (k', v') # dict_set d k v)"

text \<open>\<open>dict(pairs)\<close>.\<close>

definition dict_of_pairs :: "('k \<times> 'v) list \<Rightarrow> ('k \<times> 'v) list" where
  "dict_of_pairs ps = foldl (\<lambda>d (k, v). dict_set d k v) [] ps"

text \<open>\<open>os.environ[name]\<close>; \<open>str\<close> of a \<open>KeyError\<close> is the key in quotes.\<close>

definition environ_get :: "env \<Rightarrow> ustr \<Rightarrow> exn + ustr" where
  "environ_get E name =
     (case environ E name of
        None \<Rightarrow> Inl (Exn KeyError ([39] @ name @ [39]))
      | Some v \<Rightarrow> Inr v)"

section \<open>claude\_client.py\<close>

definition PLATFORM_WORD_LIMITS :: "(ustr \<times> nat) list" where
  "PLATFORM_WORD_LIMITS =
     [(ascii ''linkedin'', 750), (ascii ''medium'', 1500), (ascii ''x'', 280)]"

definition MAX_RETRIES :: nat where
  "MAX_RETRIES = 3"

text \<open>\<open>response.content[0].text\<close>.\<close>

fun first_text :: "content_block list \<Rightarrow> exn + ustr" where
  "first_text [] = Inl (Exn IndexError (ascii ''list index out of range''))"
| "first_text (TextBlock t # _) = Inr t"
| "first_text (OtherBlock # _) =
     Inl (Exn AttributeError (ascii ''object has no attribute text''))"

text \<open>
  A float is the real number it stands for.  \<open>random.uniform(a, b)\<close> is
  \<open>a + (b - a) * random()\<close>; with \<open>a = 0\<close> and \<open>b = 1\<close>, as the retry loop calls it, each of
  the three float operations is exact, so the result is the draw itself.
\<close>

definition uniform :: "real \<Rightarrow> real \<Rightarrow> real \<Rightarrow> real" where
  "uniform a b r = a + (b - a) * r"

text \<open>
  The sum \<open>(2 ** attempt) + jitter\<close> is a float addition: the exact sum rounded to the
  nearest double, a tie going to the even significand.  \<open>round_double\<close> rounds a real to
  53 significant bits: \<open>exponent2\<close> is the binary exponent of a positive real (not taken
  below -1022, that of the smallest normal double), \<open>pow2 (e - 52)\<close> the spacing of the
  doubles at that exponent.  Overflow, from \<open>2 ^ 1024\<close> on, is not modelled.
\<close>

fun ilog2 :: "nat \<Rightarrow> nat" where
  "ilog2 n = (if n < 2 then 0 else Suc (ilog2 (n div 2)))"

definition pow2 :: "int \<Rightarrow> real" where
  "pow2 e = (if 0 \<le> e then 2 ^ nat e else 1 / 2 ^ nat (- e))"

definition exponent2 :: "real \<Rightarrow> int" where
  "exponent2 a =
     (if 1 \<le> a then int (ilog2 (nat \<lfloor>a\<rfloor>))
      else - int (ilog2 (nat \<lceil>1 / a\<rceil> - 1)) - 1)"

definition round_half_even :: "real \<Rightarrow> int" where
  "round_half_even q =
     (let f = \<lfloor>q\<rfloor>; d = q - of_int f
      in if d < 1 / 2 then f else if 1 / 2 < d then f + 1
         else if even f then f else f + 1)"

definition round_double :: "real \<Rightarrow> real" where
  "round_double x =
     (if x = 0 then 0
      else
        let a = \<bar>x\<bar>;
            e = max (exponent2 a) (- 1022);
            u = pow2 (e - 52)
        in sgn x * (of_int (round_half_even (a / u)) * u))"

definition float_add :: "real \<Rightarrow> real \<Rightarrow> real" where
  "float_add x y = round_double (x + y)"

text \<open>
  The body of the \<open>try\<close>: the call and the extraction of the text.
\<close>

definition attempt_call :: "env \<Rightarrow> ustr \<Rightarrow> nat \<Rightarrow> exn + ustr" where
  "attempt_call E prompt attempt =
     (case messages_create E prompt attempt of
        Inl e \<Rightarrow> Inl e
      | Inr response \<Rightarrow> first_text response)"

text \<open>
  The \<open>for attempt in range(MAX_RETRIES)\<close> loop of \<open>_call_with_retry\<close>, over the attempts
  still to make.  A loop that ends without returning makes the function return
  \<open>None\<close>.
\<close>

fun retry_loop :: "env \<Rightarrow> ustr \<Rightarrow> nat list \<Rightarrow> event list \<times> (exn + ustr option)" where
  "retry_loop E prompt [] = ([], Inr None)"
| "retry_loop E prompt (attempt # rest) =
     (case attempt_call E prompt attempt of
        Inr text \<Rightarrow> ([MessagesCreate prompt], Inr (Some text))
      | Inl e \<Rightarrow>
          if exn_class_of e = RateLimitError then
            if attempt = MAX_RETRIES - 1
            then ([MessagesCreate prompt],
                  Inl (Exn ContentGenerationError
                         (ascii ''Rate limit exceeded after max retries'')))
            else
              let backoff = float_add (2 ^ attempt) (uniform 0 1 (random_draw E prompt attempt));
                  (events, outcome) = retry_loop E prompt rest
              in (MessagesCreate prompt # Sleep backoff # events, outcome)
          else if exn_class_of e = APIError then
            if attempt = MAX_RETRIES - 1
            then ([MessagesCreate prompt],
                  Inl (Exn ContentGenerationError
                         (ascii ''API error after '' @ str_nat MAX_RETRIES @
                          ascii '' attempts: '' @ exn_str e)))
            else
              let (events, outcome) = retry_loop E prompt rest
              in (MessagesCreate prompt # Sleep 1 # events, outcome)
          else ([MessagesCreate prompt], Inl e))"

definition call_with_retry :: "env \<Rightarrow> ustr \<Rightarrow> event list \<times> (exn + ustr option)" where
  "call_with_retry E prompt = retry_loop E prompt [0..<MAX_RETRIES]"

definition user_prompt :: "ustr \<Rightarrow> ustr \<Rightarrow> ustr" where
  "user_prompt pillar platform =
     (let word_limit =
            (case map_of PLATFORM_WORD_LIMITS platform of None \<Rightarrow> 500 | Some w \<Rightarrow> w)
      in ascii ''Write a '' @ platform @ ascii '' post for the '' @ [39] @ pillar @ [39] @
         ascii '' content pillar. '' @
         ascii ''Target length: '' @ str_nat word_limit @ ascii '' words. '' @
         ascii ''Use only verified facts from the profile. No fabrication.'')"

definition generate :: "env \<Rightarrow> ustr \<Rightarrow> ustr \<Rightarrow> event list \<times> (exn + ustr option)" where
  "generate E pillar platform = call_with_retry E (user_prompt pillar platform)"

section \<open>twitter\_publisher.py\<close>

record TwitterPublisher =
  consumer_key :: ustr
  consumer_secret :: ustr
  access_token :: ustr
  access_token_secret :: ustr

definition TWEET_ENDPOINT :: ustr where
  "TWEET_ENDPOINT = ascii ''https://api.x.com/2/tweets''"

definition MAX_TWEET_LENGTH :: nat where
  "MAX_TWEET_LENGTH = 280"

text \<open>
  \<open>_truncate\<close> (the name \<open>truncate\<close> is taken by the record package).  Code point 8230
  is the horizontal ellipsis.
\<close>

definition truncate_tweet :: "ustr \<Rightarrow> ustr" where
  "truncate_tweet content =
     (if length content \<le> MAX_TWEET_LENGTH then content
      else take (MAX_TWEET_LENGTH - 1) content @ [8230])"

subsection \<open>Encodings\<close>

text \<open>
  \<open>str.encode()\<close>: UTF-8, strict.  A lone surrogate (an undecodable byte of an
  environment variable arrives as one) raises \<open>UnicodeEncodeError\<close>, whose text is
  abbreviated here.  A number from 0x110000 on is no code point of a \<open>str\<close>.
\<close>

definition utf8_char :: "nat \<Rightarrow> nat list option" where
  "utf8_char c =
     (if c < 128 then Some [c]
      else if c < 2048 then Some [192 + c div 64, 128 + c mod 64]
      else if 55296 \<le> c \<and> c < 57344 then None
      else if c < 65536
        then Some [224 + c div 4096, 128 + (c div 64) mod 64, 128 + c mod 64]
      else if c < 1114112
        then Some [240 + c div 262144, 128 + (c div 4096) mod 64,
                   128 + (c div 64) mod 64, 128 + c mod 64]
      else None)"

fun encode_utf8 :: "ustr \<Rightarrow> exn + nat list" where
  "encode_utf8 [] = Inr []"
| "encode_utf8 (c # cs) =
     (case utf8_char c of
        None \<Rightarrow> Inl (Exn UnicodeEncodeError (ascii ''surrogates not allowed''))
      | Some bs \<Rightarrow>
          (case encode_utf8 cs of Inl e \<Rightarrow> Inl e | Inr rest \<Rightarrow> Inr (bs @ rest)))"

text \<open>
  \<open>urllib.parse.quote(s, safe='')\<close>: the UTF-8 bytes of \<open>s\<close>, each kept if it is a
  letter, a digit or one of \<open>_.-~\<close>, and written \<open>%XX\<close> in upper-case hexadecimal
  otherwise.
\<close>

definition always_safe :: "nat \<Rightarrow> bool" where
  "always_safe b =
     (is_upper_ascii b \<or> is_lower_ascii b \<or> is_digit_ascii b \<or>
      b = 95 \<or> b = 46 \<or> b = 45 \<or> b = 126)"

definition hex_digit :: "nat \<Rightarrow> nat" where
  "hex_digit n = (if n < 10 then 48 + n else 55 + n)"

definition quote_byte :: "nat \<Rightarrow> ustr" where
  "quote_byte b = (if always_safe b then [b] else [37, hex_digit (b div 16), hex_digit (b mod 16)])"

definition quote :: "ustr \<Rightarrow> exn + ustr" where
  "quote s =
     (case encode_utf8 s of Inl e \<Rightarrow> Inl e | Inr bs \<Rightarrow> Inr (concat (map quote_byte bs)))"

text \<open>\<open>base64.b64encode\<close>, the standard alphabet with \<open>=\<close> padding.\<close>

definition b64_char :: "nat \<Rightarrow> nat" where
  "b64_char i =
     (if i < 26 then 65 + i else if i < 52 then 71 + i else if i < 62 then i - 4
      else if i = 62 then 43 else 47)"

fun b64encode :: "nat list \<Rightarrow> nat list" where
  "b64encode [] = []"
| "b64encode [a] = [b64_char (a div 4), b64_char ((a mod 4) * 16), 61, 61]"
| "b64encode [a, b] =
     [b64_char (a div 4), b64_char ((a mod 4) * 16 + b div 16), b64_char ((b mod 16) * 4), 61]"
| "b64encode (a # b # c # rest) =
     [b64_char (a div 4), b64_char ((a mod 4) * 16 + b div 16),
      b64_char ((b mod 16) * 4 + c div 64), b64_char (c mod 64)] @ b64encode rest"

text \<open>\<open>str(int(t))\<close>: \<open>int\<close> truncates towards zero.\<close>

definition py_int :: "real \<Rightarrow> int" where
  "py_int t = (if 0 \<le> t then \<lfloor>t\<rfloor> else \<lceil>t\<rceil>)"

definition str_int :: "int \<Rightarrow> ustr" where
  "str_int i = (if i < 0 then 45 # str_nat (nat (- i)) else str_nat (nat i))"

subsection \<open>Sorting the parameters\<close>

text \<open>
  \<open>sorted(oauth_params.items())\<close> orders the (key, value) tuples: strings compare code
  point by code point, tuples by their first component and then their second.
\<close>

fun str_less :: "ustr \<Rightarrow> ustr \<Rightarrow> bool" where
  "str_less [] [] = False"
| "str_less [] (y # ys) = True"
| "str_less (x # xs) [] = False"
| "str_less (x # xs) (y # ys) = (x < y \<or> (x = y \<and> str_less xs ys))"

definition item_le :: "ustr \<times> ustr \<Rightarrow> ustr \<times> ustr \<Rightarrow> bool" where
  "item_le a b = (str_less (fst a) (fst b) \<or> (fst a = fst b \<and> \<not> str_less (snd b) (snd a)))"

fun insert_item :: "ustr \<times> ustr \<Rightarrow> (ustr \<times> ustr) list \<Rightarrow> (ustr \<times> ustr) list" where
  "insert_item a [] = [a]"
| "insert_item a (b # bs) = (if item_le a b then a # b # bs else b # insert_item a bs)"

definition sorted_items :: "(ustr \<times> ustr) list \<Rightarrow> (ustr \<times> ustr) list" where
  "sorted_items d = foldr insert_item d []"

subsection \<open>Signing\<close>

text \<open>
  The two generator expressions: each item is rendered with both parts quoted; the
  first exception raised while rendering ends the whole expression.
\<close>

definition render_item :: "ustr \<Rightarrow> ustr \<Rightarrow> ustr \<times> ustr \<Rightarrow> exn + ustr" where
  "render_item mid close kv =
     (case quote (fst kv) of
        Inl e \<Rightarrow> Inl e
      | Inr k \<Rightarrow> (case quote (snd kv) of Inl e \<Rightarrow> Inl e | Inr v \<Rightarrow> Inr (k @ mid @ v @ close)))"

fun render_items :: "ustr \<Rightarrow> ustr \<Rightarrow> (ustr \<times> ustr) list \<Rightarrow> exn + ustr list" where
  "render_items mid close [] = Inr []"
| "render_items mid close (kv # kvs) =
     (case render_item mid close kv of
        Inl e \<Rightarrow> Inl e
      | Inr x \<Rightarrow> (case render_items mid close kvs of Inl e \<Rightarrow> Inl e | Inr xs \<Rightarrow> Inr (x # xs)))"

text \<open>
  \<open>_build_oauth_headers\<close>.  The nonce and the timestamp are read from the world; the
  statements follow the source in order, each one that can raise ending the function
  with its exception.
\<close>

definition oauth_params0 :: "env \<Rightarrow> TwitterPublisher \<Rightarrow> (ustr \<times> ustr) list" where
  "oauth_params0 E self =
     [(ascii ''oauth_consumer_key'', consumer_key self),
      (ascii ''oauth_nonce'', token_hex E),
      (ascii ''oauth_signature_method'', ascii ''HMAC-SHA1''),
      (ascii ''oauth_timestamp'', str_int (py_int (clock E))),
      (ascii ''oauth_token'', access_token self),
      (ascii ''oauth_version'', ascii ''1.0'')]"

definition build_oauth_headers ::
  "pylib \<Rightarrow> env \<Rightarrow> TwitterPublisher \<Rightarrow> ustr \<Rightarrow> ustr \<Rightarrow> exn + (ustr \<times> ustr) list" where
  "build_oauth_headers L E self method url =
     (let oauth_params = oauth_params0 E self in
      and_then (render_items [61] [] (sorted_items oauth_params)) (\<lambda>pairs.
      let param_string = join [38] pairs in
      and_then (quote url) (\<lambda>qurl.
      and_then (quote param_string) (\<lambda>qparams.
      let base_string = str_upper L method @ [38] @ qurl @ [38] @ qparams in
      and_then (quote (consumer_secret self)) (\<lambda>qcs.
      and_then (quote (access_token_secret self)) (\<lambda>qts.
      let signing_key = qcs @ [38] @ qts in
      and_then (encode_utf8 signing_key) (\<lambda>key_bytes.
      and_then (encode_utf8 base_string) (\<lambda>base_bytes.
      let signature = b64encode (hmac_sha1 L key_bytes base_bytes);
          oauth_params = dict_set oauth_params (ascii ''oauth_signature'') signature in
      and_then (render_items [61, 34] [34] (sorted_items oauth_params)) (\<lambda>quoted.
      let auth_header = ascii ''OAuth '' @ join (ascii '', '') quoted
      in Inr [(ascii ''Authorization'', auth_header)])))))))))"

text \<open>\<open>_post_tweet\<close> and \<open>publish\<close>.  Code point 8594 is the rightwards arrow.\<close>

definition post_tweet ::
  "pylib \<Rightarrow> env \<Rightarrow> TwitterPublisher \<Rightarrow> ustr \<Rightarrow> event list \<times> (exn + ustr)" where
  "post_tweet L E self text =
     (case build_oauth_headers L E self (ascii ''POST'') TWEET_ENDPOINT of
        Inl e \<Rightarrow> ([], Inl e)
      | Inr headers0 \<Rightarrow>
          let headers = dict_set headers0 (ascii ''Content-Type'') (ascii ''application/json'')
          in ([HttpPost TWEET_ENDPOINT headers text], http_post E TWEET_ENDPOINT headers text))"

definition twitter_publish ::
  "pylib \<Rightarrow> env \<Rightarrow> TwitterPublisher \<Rightarrow> ustr \<Rightarrow> event list \<times> (exn + ustr)" where
  "twitter_publish L E self content =
     (let truncated = truncate_tweet content;
          (events, outcome) = post_tweet L E self truncated
      in case outcome of
           Inr tweet_id \<Rightarrow>
             (events, Inr (ascii ''X: published successfully '' @ [8594] @
                           ascii '' tweet ID '' @ tweet_id))
         | Inl e \<Rightarrow>
             if exn_class_of e = TwitterPublisherError then (events, Inl e)
             else (events, Inl (Exn TwitterPublisherError
                                  (ascii ''X publish failed: '' @ exn_str e))))"

section \<open>content\_pipeline.py\<close>

record PipelineConfig =
  platforms :: "ustr list"
  pillar :: ustr
  dry_run :: bool

definition SUPPORTED_PLATFORMS :: "ustr list" where
  "SUPPORTED_PLATFORMS = [ascii ''linkedin'', ascii ''medium'', ascii ''x'']"

subsection \<open>The publisher registry\<close>

datatype publisher_class = LinkedInPublisher | MediumPublisher | TwitterPublisherClass

datatype publisher = LinkedIn | Medium ustr | Twitter TwitterPublisher

text \<open>
  The constructors: \<open>LinkedInPublisher\<close> has none of its own; the other two read their
  credentials from \<open>os.environ\<close>, in the order of the source.
\<close>

fun construct_publisher :: "env \<Rightarrow> publisher_class \<Rightarrow> exn + publisher" where
  "construct_publisher E LinkedInPublisher = Inr LinkedIn"
| "construct_publisher E MediumPublisher =
     and_then (environ_get E (ascii ''MEDIUM_INTEGRATION_TOKEN'')) (\<lambda>token. Inr (Medium token))"
| "construct_publisher E TwitterPublisherClass =
     and_then (environ_get E (ascii ''TWITTER_CONSUMER_KEY'')) (\<lambda>ck.
     and_then (environ_get E (ascii ''TWITTER_CONSUMER_SECRET'')) (\<lambda>cs.
     and_then (environ_get E (ascii ''TWITTER_ACCESS_TOKEN'')) (\<lambda>tok.
     and_then (environ_get E (ascii ''TWITTER_ACCESS_TOKEN_SECRET'')) (\<lambda>ats.
     Inr (Twitter \<lparr> consumer_key = ck, consumer_secret = cs,
                     access_token = tok, access_token_secret = ats \<rparr>)))))"

definition publisher_table :: "(ustr \<times> publisher_class) list" where
  "publisher_table =
     [(ascii ''linkedin'', LinkedInPublisher), (ascii ''medium'', MediumPublisher),
      (ascii ''x'', TwitterPublisherClass)]"

text \<open>
  \<open>_get_publisher\<close>: the three imports, the lookup in the table (\<open>KeyError\<close> on a
  missing key) and the call of the class found.
\<close>

definition get_publisher :: "pylib \<Rightarrow> env \<Rightarrow> ustr \<Rightarrow> exn + publisher" where
  "get_publisher L E platform =
     (case import_publishers E of
        Some e \<Rightarrow> Inl e
      | None \<Rightarrow>
          (case map_of publisher_table platform of
             None \<Rightarrow> Inl (Exn KeyError (repr_str L platform))
           | Some cls \<Rightarrow> construct_publisher E cls))"

text \<open>
  \<open>publisher.publish(content)\<close>.  The LinkedIn and Medium adapters are a browser
  session and two HTTP requests; their outcome is the world's.
\<close>

fun publish :: "pylib \<Rightarrow> env \<Rightarrow> publisher \<Rightarrow> ustr \<Rightarrow> event list \<times> (exn + ustr)" where
  "publish L E LinkedIn content = ([], linkedin_session E content)"
| "publish L E (Medium token) content = ([], medium_session E token content)"
| "publish L E (Twitter self) content = twitter_publish L E self content"

subsection \<open>One platform's task\<close>

text \<open>How an f-string renders a list of strings.\<close>

definition repr_list :: "pylib \<Rightarrow> ustr list \<Rightarrow> ustr" where
  "repr_list L xs = [91] @ join (ascii '', '') (map (repr_str L) xs) @ [93]"

text \<open>
  \<open>_generate_and_publish\<close>.  Were \<open>generate\<close> to return \<open>None\<close>, the first regular
  expression search of \<open>validate\<close> would raise \<open>TypeError\<close>.
\<close>

definition generate_and_publish ::
  "pylib \<Rightarrow> env \<Rightarrow> PipelineConfig \<Rightarrow> ustr \<Rightarrow> event list \<times> (exn + ustr)" where
  "generate_and_publish L E config platform =
     (let (events, generated) = generate E (pillar config) platform in
      case generated of
        Inl e \<Rightarrow> (events, Inl e)
      | Inr None \<Rightarrow>
          (events, Inl (Exn TypeError
                          (ascii ''expected string or bytes-like object, got '' @ [39] @
                           ascii ''NoneType'' @ [39])))
      | Inr (Some content) \<Rightarrow>
          let validation = validate L content platform in
          if \<not> passed validation
          then (events, Inl (Exn ValueError
                               (ascii ''Validation failed for '' @ platform @ ascii '': '' @
                                repr_list L (failures validation))))
          else if dry_run config
          then (events, Inr (ascii ''[DRY RUN] Would publish to '' @ platform))
          else
            (case get_publisher L E platform of
               Inl e \<Rightarrow> (events @ [GetPublisher platform], Inl e)
             | Inr publisher \<Rightarrow>
                 let (events', outcome) = publish L E publisher content
                 in (events @ [GetPublisher platform, Publish platform content] @ events',
                     outcome)))"

subsection \<open>The fan-out and the fan-in\<close>

text \<open>
  A coroutine object is a call that has not started; the only coroutine function
  called in \<open>run\<close> is \<open>_generate_and_publish\<close>.
\<close>

datatype coroutine = GenerateAndPublish ustr

fun run_coroutine ::
  "pylib \<Rightarrow> env \<Rightarrow> PipelineConfig \<Rightarrow> coroutine \<Rightarrow> event list \<times> (exn + ustr)" where
  "run_coroutine L E config (GenerateAndPublish platform) =
     generate_and_publish L E config platform"

text \<open>The dict comprehension of \<open>run\<close>, one platform of \<open>config.platforms\<close> at a time.\<close>

definition build_tasks :: "PipelineConfig \<Rightarrow> (ustr \<times> coroutine) list" where
  "build_tasks config =
     foldl (\<lambda>tasks platform.
              if platform \<in> set SUPPORTED_PLATFORMS
              then dict_set tasks platform (GenerateAndPublish platform)
              else tasks)
       [] (platforms config)"

text \<open>
  \<open>asyncio.gather(*aws, return_exceptions=True)\<close>: every awaitable runs to its end as a
  task of its own, and the list of results, in the order of \<open>aws\<close>, holds for each
  either the value returned or the exception raised.  The events are kept per task,
  since the tasks interleave.
\<close>

definition gather_return_exceptions ::
  "(event list \<times> (exn + 'a)) list \<Rightarrow> event list list \<times> (exn + (exn + 'a) list)" where
  "gather_return_exceptions finished = (map fst finished, Inr (map snd finished))"

text \<open>\<open>run\<close>: the events of every task launched, and the mapping returned or the
  exception raised.\<close>

definition run ::
  "pylib \<Rightarrow> env \<Rightarrow> PipelineConfig \<Rightarrow>
     event list list \<times> (exn + (ustr \<times> (exn + ustr)) list)" where
  "run L E config =
     (let tasks = build_tasks config;
          (traces, gathered) =
             gather_return_exceptions (map (run_coroutine L E config) (map snd tasks))
      in (traces,
          and_then gathered (\<lambda>results. Inr (dict_of_pairs (zip (map fst tasks) results)))))"

section \<open>A concrete runtime library for the examples\<close>

text \<open>
  The closed examples below run the definitions with this instance of the library
  parameters: no alphanumerics above ASCII, \<open>repr\<close> in single quotes without escapes,
  ASCII upper-casing and a constant digest of twenty bytes.
\<close>

definition example_lib :: pylib where
  "example_lib =
     \<lparr> uni_alnum = (\<lambda>c. False),
       repr_str = (\<lambda>s. [39] @ s @ [39]),
       str_upper = map (\<lambda>c. if is_lower_ascii c then c - 32 else c),
       hmac_sha1 =
         (\<lambda>key msg. [0, 0, 0, 0, 0, 0, 0, 0, 0, 0, 0, 0, 0, 0, 0, 0, 0, 0, 0, 0]) \<rparr>"

text \<open>
  A world for the examples: the backend answers every call with one text block that
  passes validation, every random draw is one half, the credentials of the X adapter
  are set, the Medium session fails, and the clock stands at 1700000000.5 seconds.
\<close>

definition example_content :: ustr where
  "example_content =
     ascii ''Swift concurrency makes structured background work easier today.''"

definition example_env :: env where
  "example_env =
     \<lparr> messages_create = (\<lambda>prompt attempt. Inr [TextBlock example_content]),
       random_draw = (\<lambda>prompt attempt. 1 / 2),
       environ = map_of
         [(ascii ''TWITTER_CONSUMER_KEY'', ascii ''ck''),
          (ascii ''TWITTER_CONSUMER_SECRET'', ascii ''cs''),
          (ascii ''TWITTER_ACCESS_TOKEN'', ascii ''tok''),
          (ascii ''TWITTER_ACCESS_TOKEN_SECRET'', ascii ''ts'')],
       import_publishers = None,
       linkedin_session = (\<lambda>content. Inr (ascii ''LinkedIn: published successfully'')),
       medium_session =
         (\<lambda>token content. Inl (Exn MediumPublisherError (ascii ''Medium publish failed''))),
       token_hex = ascii ''0123456789abcdef0123456789abcdef'',
       clock = 1700000000.5,
       http_post = (\<lambda>url headers body. Inr (ascii ''42'')) \<rparr>"

text \<open>Credentials with a space and a slash, for the signing example.\<close>

definition example_self :: TwitterPublisher where
  "example_self =
     \<lparr> consumer_key = ascii ''c k'', consumer_secret = ascii ''cs'',
       access_token = ascii ''tok'', access_token_secret = ascii ''t/s'' \<rparr>"

definition rate_limited :: "exn + content_block list" where
  "rate_limited = Inl (Exn RateLimitError (ascii ''429''))"

text \<open>
  A world in which the first call is rate-limited and every random draw is the
  largest double below 1.
\<close>

definition rounding_env :: env where
  "rounding_env =
     example_env
       \<lparr> messages_create :=
           (\<lambda>prompt attempt. if attempt < 1 then rate_limited
                               else Inr [TextBlock example_content]),
         random_draw := (\<lambda>prompt attempt. 1 - 1 / 2 ^ 53) \<rparr>"

definition api_failed :: "exn + content_block list" where
  "api_failed = Inl (Exn APIError (ascii ''boom''))"

section \<open>Auxiliary notions for the proofs\<close>

text \<open>
  The keys of the task dictionary, computed on their own: a supported platform joins
  the keys at its first occurrence in \<open>config.platforms\<close>.
\<close>

fun task_keys :: "ustr list \<Rightarrow> ustr list \<Rightarrow> ustr list" where
  "task_keys ks [] = ks"
| "task_keys ks (p # ps) =
     task_keys (if p \<in> set SUPPORTED_PLATFORMS \<and> p \<notin> set ks then ks @ [p] else ks) ps"

section \<open>Properties of the validator\<close>

subsection \<open>The fabrication check\<close>

lemma fabrication_loop_filter:
  "fabrication_loop L content found ms =
     found @ map fabrication_failure (filter (\<lambda>p. re_search_ignorecase L p content) ms)"
  by (induction ms arbitrary: found) simp_all

lemma check_fabrication_filter:
  "check_fabrication L content =
     map fabrication_failure
       (filter (\<lambda>p. re_search_ignorecase L p content) FABRICATION_MARKERS)"
  by (simp add: check_fabrication_def fabrication_loop_filter)

lemma count_list_map_filter:
  "inj f \<Longrightarrow> distinct xs \<Longrightarrow>
   count_list (map f (filter P xs)) (f p) = (if p \<in> set xs \<and> P p then 1 else 0)"
  by (induction xs) (auto simp: inj_eq)

lemma inj_fabrication_failure: "inj fabrication_failure"
  by (rule injI) (simp add: fabrication_failure_def)

lemma distinct_markers: "distinct FABRICATION_MARKERS"
  by (simp add: FABRICATION_MARKERS_def bs_b_def ascii_def)

text \<open>Lower-casing the ASCII letters of the input changes no step of the search.\<close>

lemma is_word_lower: "is_word L (ascii_lower c) = is_word L c"
  by (auto simp: is_word_def ascii_lower_def is_upper_ascii_def is_lower_ascii_def
      is_digit_ascii_def)

lemma lit_matches_lower: "lit_matches p (ascii_lower c) = lit_matches p c"
  by (auto simp: lit_matches_def case_variants_def ascii_lower_def is_upper_ascii_def
      is_lower_ascii_def)

lemma at_boundary_lower:
  "at_boundary L (map_option ascii_lower prev) (map ascii_lower rest) = at_boundary L prev rest"
  by (cases prev; cases rest)
    (simp_all add: at_boundary_def word_before_def word_after_def is_word_lower)

lemma match_here_lower:
  "match_here L as (map_option ascii_lower prev) (map ascii_lower rest) =
   match_here L as prev rest"
proof (induction L as prev rest rule: match_here.induct)
  case (2 L as prev rest)
  then show ?case by (simp add: at_boundary_lower)
next
  case (4 L p as prev c cs)
  then show ?case by (simp add: lit_matches_lower)
qed simp_all

lemma search_from_lower:
  "search_from L as (map_option ascii_lower prev) (map ascii_lower rest) =
   search_from L as prev rest"
proof (induction rest arbitrary: prev)
  case Nil
  show ?case using match_here_lower [of L as prev "[]"] by simp
next
  case (Cons c cs)
  show ?case using match_here_lower [of L as prev "c # cs"] Cons [of "Some c"] by simp
qed

lemma re_search_lower:
  "re_search_ignorecase L p (map ascii_lower content) = re_search_ignorecase L p content"
  using search_from_lower [of L "re_parse p" None content]
  by (simp add: re_search_ignorecase_def)

lemmas regex_defs =
  re_search_ignorecase_def bs_b_def ascii_def at_boundary_def word_before_def word_after_def
  is_word_def lit_matches_def case_variants_def ascii_lower_def is_upper_ascii_def
  is_lower_ascii_def is_digit_ascii_def

lemma once_told_me_capitalised:
  "check_fabrication L (ascii ''Once Told Me'') =
     [fabrication_failure (bs_b @ ascii ''once told me'' @ bs_b)]"
  by (simp add: check_fabrication_def FABRICATION_MARKERS_def regex_defs)

lemma once_told_me_lower:
  "check_fabrication L (ascii ''once told me'') =
     [fabrication_failure (bs_b @ ascii ''once told me'' @ bs_b)]"
  by (simp add: check_fabrication_def FABRICATION_MARKERS_def regex_defs)

text \<open>
  Claim C3.  For every content string the fabrication check tries every marker of
  the fixed table, without stopping at the first match: its result is the list of
  the failures of exactly the markers that match, in table order, so each matching
  marker contributes exactly one failure, which names it, and a marker that does
  not match contributes none.  The match ignores case: lower-casing the content
  changes nothing, and \<open>Once Told Me\<close> yields the same single failure as
  \<open>once told me\<close>.
\<close>

theorem check_fabrication_all_markers_ignorecase:
  "check_fabrication L content =
     map fabrication_failure
       (filter (\<lambda>p. re_search_ignorecase L p content) FABRICATION_MARKERS)
   \<and> count_list (check_fabrication L content) (fabrication_failure p) =
       (if p \<in> set FABRICATION_MARKERS \<and> re_search_ignorecase L p content then 1 else 0)
   \<and> check_fabrication L (map ascii_lower content) = check_fabrication L content
   \<and> check_fabrication L (ascii ''Once Told Me'') =
       [fabrication_failure (bs_b @ ascii ''once told me'' @ bs_b)]
   \<and> check_fabrication L (ascii ''once told me'') =
       check_fabrication L (ascii ''Once Told Me'')"
proof -
  have "count_list (check_fabrication L content) (fabrication_failure p) =
       (if p \<in> set FABRICATION_MARKERS \<and> re_search_ignorecase L p content then 1 else 0)"
    unfolding check_fabrication_filter
    by (rule count_list_map_filter [OF inj_fabrication_failure distinct_markers])
  moreover have "check_fabrication L (map ascii_lower content) = check_fabrication L content"
    by (simp add: check_fabrication_filter re_search_lower)
  ultimately show ?thesis
    using check_fabrication_filter [of L content]
    by (simp only: once_told_me_capitalised once_told_me_lower simp_thms)
qed

subsection \<open>The outcome of \<open>validate\<close>\<close>

lemma validate_failures:
  "failures (validate L c p) =
     check_fabrication L c @ check_platform_limits c p @ check_not_empty c"
  by (simp add: validate_def)

lemma validate_passed: "passed (validate L c p) = (failures (validate L c p) = [])"
  by (simp add: validate_def)

text \<open>
  Claim C5.  For every content and platform, \<open>passed\<close> is true exactly when the list
  of failures is empty, and the list is the failures of the fabrication check,
  followed by those of the length check, followed by those of the emptiness check:
  the first part holds fabrication failures only, the second is empty or the one
  length failure, the third is empty or the one emptiness failure.
\<close>

theorem validate_passed_iff_no_failures_in_check_order:
  "passed (validate L content platform) = (failures (validate L content platform) = [])
   \<and> failures (validate L content platform) =
       check_fabrication L content @ check_platform_limits content platform @
       check_not_empty content
   \<and> set (check_fabrication L content) \<subseteq> fabrication_failure ` set FABRICATION_MARKERS
   \<and> (check_platform_limits content platform = [] \<or>
       (\<exists>m. check_platform_limits content platform =
              [limit_failure platform (length content) m]))
   \<and> (check_not_empty content = [] \<or>
       check_not_empty content = [ascii ''Content is empty or too short''])"
proof -
  have "set (check_fabrication L content) \<subseteq> fabrication_failure ` set FABRICATION_MARKERS"
    by (auto simp: check_fabrication_filter)
  moreover have "check_platform_limits content platform = [] \<or>
       (\<exists>m. check_platform_limits content platform =
              [limit_failure platform (length content) m])"
    by (auto simp: check_platform_limits_def split: option.split)
  moreover have "check_not_empty content = [] \<or>
       check_not_empty content = [ascii ''Content is empty or too short'']"
    by (simp add: check_not_empty_def)
  ultimately show ?thesis
    using validate_passed [of L content platform] validate_failures [of L content platform]
    by blast
qed

subsection \<open>The length check\<close>

lemma limit_not_fabrication: "limit_failure p n m \<notin> set (check_fabrication L content)"
proof
  assume "limit_failure p n m \<in> set (check_fabrication L content)"
  then obtain q where "limit_failure p n m = fabrication_failure q"
    by (auto simp: check_fabrication_filter)
  then show False by (simp add: limit_failure_def fabrication_failure_def ascii_def)
qed

lemma limit_not_empty_msg: "limit_failure p n m \<noteq> ascii ''Content is empty or too short''"
  by (simp add: limit_failure_def ascii_def)

lemma max_chars_nonzero: "map_of PLATFORM_MAX_CHARS p = Some m \<Longrightarrow> m \<noteq> 0"
  by (auto simp: PLATFORM_MAX_CHARS_def split: if_splits)

lemma limit_exceeded:
  assumes "map_of PLATFORM_MAX_CHARS platform = Some m" and "m < length content"
  shows "check_platform_limits content platform = [limit_failure platform (length content) m]"
  using assms max_chars_nonzero [OF assms(1)] by (simp add: check_platform_limits_def)

lemma limit_respected:
  assumes "map_of PLATFORM_MAX_CHARS platform = Some m" and "length content \<le> m"
  shows "check_platform_limits content platform = []"
  using assms by (simp add: check_platform_limits_def)

lemma limit_unconfigured:
  "map_of PLATFORM_MAX_CHARS platform = None \<Longrightarrow> check_platform_limits content platform = []"
  by (simp add: check_platform_limits_def)

lemma limit_failure_once:
  assumes "map_of PLATFORM_MAX_CHARS platform = Some m" and "m < length content"
  shows "count_list (failures (validate L content platform))
           (limit_failure platform (length content) m) = 1"
  using limit_exceeded [OF assms] limit_not_fabrication [of platform "length content" m L content]
    limit_not_empty_msg [of platform "length content" m]
  by (simp add: validate_failures check_not_empty_def)

text \<open>
  Claim C6.  For a platform whose table entry is the limit \<open>m\<close>: content longer than
  \<open>m\<close> gets the length failure stating its length and \<open>m\<close>, the failure occurs exactly
  once among the failures of \<open>validate\<close>, and \<open>validate\<close> does not pass; content of
  length at most \<open>m\<close>, so also of length exactly \<open>m\<close>, gets no length failure.  For a
  platform without a table entry the length check returns nothing, whatever the
  content, and the failures of \<open>validate\<close> are those of the other two checks.
\<close>

theorem platform_limit_strict_and_only_when_configured:
  "(\<forall>m. map_of PLATFORM_MAX_CHARS platform = Some m \<longrightarrow>
      (m < length content \<longrightarrow>
         check_platform_limits content platform =
           [limit_failure platform (length content) m] \<and>
         count_list (failures (validate L content platform))
           (limit_failure platform (length content) m) = 1 \<and>
         \<not> passed (validate L content platform)) \<and>
      (length content \<le> m \<longrightarrow>
         check_platform_limits content platform = [] \<and>
         failures (validate L content platform) =
           check_fabrication L content @ check_not_empty content))
   \<and> (map_of PLATFORM_MAX_CHARS platform = None \<longrightarrow>
        check_platform_limits content platform = [] \<and>
        failures (validate L content platform) =
          check_fabrication L content @ check_not_empty content)"
proof (intro conjI allI impI)
  fix m
  assume cfg: "map_of PLATFORM_MAX_CHARS platform = Some m" and over: "m < length content"
  show "check_platform_limits content platform = [limit_failure platform (length content) m]"
    by (rule limit_exceeded [OF cfg over])
  show "count_list (failures (validate L content platform))
           (limit_failure platform (length content) m) = 1"
    by (rule limit_failure_once [OF cfg over])
  show "\<not> passed (validate L content platform)"
    by (simp add: validate_passed validate_failures limit_exceeded [OF cfg over])
next
  fix m
  assume cfg: "map_of PLATFORM_MAX_CHARS platform = Some m" and le: "length content \<le> m"
  show "check_platform_limits content platform = []"
    by (rule limit_respected [OF cfg le])
  show "failures (validate L content platform) =
          check_fabrication L content @ check_not_empty content"
    by (simp add: validate_failures limit_respected [OF cfg le])
next
  assume none: "map_of PLATFORM_MAX_CHARS platform = None"
  show "check_platform_limits content platform = []"
    by (rule limit_unconfigured [OF none])
  show "failures (validate L content platform) =
          check_fabrication L content @ check_not_empty content"
    by (simp add: validate_failures limit_unconfigured [OF none])
qed

text \<open>
  The limit of \<open>x\<close> is 280: content of 300 characters is rejected with the failure
  that states both numbers, content of exactly 280 characters gets no length
  failure, and a platform outside the table is not checked.
\<close>

theorem platform_limit_witness:
  "map_of PLATFORM_MAX_CHARS (ascii ''x'') = Some 280
   \<and> check_platform_limits (replicate 300 97) (ascii ''x'') =
       [ascii ''Content exceeds x limit: 300 > 280 chars'']
   \<and> \<not> passed (validate example_lib (replicate 300 97) (ascii ''x''))
   \<and> check_platform_limits (replicate 280 97) (ascii ''x'') = []
   \<and> map_of PLATFORM_MAX_CHARS (ascii ''bogus'') = None
   \<and> check_platform_limits (replicate 300 97) (ascii ''bogus'') = []"
  using
    platform_limit_strict_and_only_when_configured
      [of "ascii ''x''" "replicate 300 97" example_lib]
    platform_limit_strict_and_only_when_configured
      [of "ascii ''x''" "replicate 280 97" example_lib]
    platform_limit_strict_and_only_when_configured
      [of "ascii ''bogus''" "replicate 300 97" example_lib]
  by (simp add: PLATFORM_MAX_CHARS_def ascii_def limit_failure_def)

section \<open>The rounding of the backoff\<close>

text \<open>
  The equation of \<open>ilog2\<close> is applied to numerals only, so that it cannot unfold
  without end on a variable.
\<close>

declare ilog2.simps [simp del]

lemma ilog2_eval:
  "ilog2 0 = 0" "ilog2 1 = 0" "ilog2 (Suc 0) = 0"
  "ilog2 (numeral k) = (if (numeral k :: nat) < 2 then 0 else Suc (ilog2 (numeral k div 2)))"
  by (subst ilog2.simps, simp)+

lemmas float_eval_defs =
  float_add_def round_double_def exponent2_def pow2_def round_half_even_def Let_def ilog2_eval

text \<open>One tenth and one third round to the doubles that Python prints for them.\<close>

lemma round_double_examples:
  "round_double (1 / 10) = 3602879701896397 / 2 ^ 55"
  "round_double (1 / 3) = 6004799503160661 / 2 ^ 54"
  "float_add 1 (1 / 2) = 3 / 2"
  "float_add 1 (1 - 1 / 2 ^ 53) = 2"
  by (simp_all add: float_eval_defs)

lemma ilog2_pow2: "ilog2 (2 ^ n) = n"
proof (induction n)
  case 0
  show ?case by (simp add: ilog2_eval)
next
  case (Suc n)
  have "(2::nat) ^ Suc n div 2 = 2 ^ n" by simp
  moreover have "\<not> (2::nat) ^ Suc n < 2" by simp
  ultimately show ?case using Suc by (subst ilog2.simps) simp
qed

lemma round_half_even_floor_or_next:
  "round_half_even q = \<lfloor>q\<rfloor> \<or> (round_half_even q = \<lfloor>q\<rfloor> + 1 \<and> 1 / 2 \<le> q - of_int \<lfloor>q\<rfloor>)"
  by (auto simp: round_half_even_def Let_def)

lemma round_half_even_near: "\<bar>of_int (round_half_even q) - q\<bar> \<le> 1 / 2"
proof -
  have "of_int \<lfloor>q\<rfloor> \<le> q" "q < of_int \<lfloor>q\<rfloor> + 1" by linarith+
  then show ?thesis
    unfolding round_half_even_def Let_def by (simp add: abs_if) linarith
qed

lemma round_half_even_between:
  assumes "of_int lo \<le> q" and "q \<le> of_int hi"
  shows "lo \<le> round_half_even q \<and> round_half_even q \<le> hi"
proof -
  have lo: "lo \<le> \<lfloor>q\<rfloor>" using assms(1) by (simp add: le_floor_iff)
  have hi: "\<lfloor>q\<rfloor> \<le> hi" using assms(2) by (simp add: floor_le_iff) 
  have up: "\<lfloor>q\<rfloor> + 1 \<le> hi" if "1 / 2 \<le> q - of_int \<lfloor>q\<rfloor>"
  proof -
    have "of_int \<lfloor>q\<rfloor> < q" using that by linarith
    then have "of_int \<lfloor>q\<rfloor> < (of_int hi :: real)" using assms(2) by linarith
    then have "\<lfloor>q\<rfloor> < hi" by simp
    then show ?thesis by simp
  qed
  show ?thesis
    using round_half_even_floor_or_next [of q] lo hi up by auto
qed


lemma float_add_pow2_jitter:
  assumes j0: "0 \<le> j" and j1: "j < 1" and n: "n \<le> 52"
  shows "2 ^ n \<le> float_add (2 ^ n) j \<and> float_add (2 ^ n) j \<le> 2 ^ n + 1 \<and>
         \<bar>float_add (2 ^ n) j - (2 ^ n + j)\<bar> \<le> 2 ^ n / 2 ^ 53"
proof -
  define s :: real where "s = 2 ^ n + j"
  define m :: nat where "m = 52 - n"
  define q :: real where "q = s * 2 ^ m"
  have nm: "n + m = 52" using n by (simp add: m_def)
  have p52: "(2::real) ^ n * 2 ^ m = 2 ^ 52"
    using nm by (metis power_add)
  have s1: "1 \<le> s" using j0 by (simp add: s_def add_increasing2)
  have fl: "\<lfloor>s\<rfloor> = 2 ^ n"
  proof (rule floor_unique)
    show "of_int (2 ^ n) \<le> s" using j0 by (simp add: s_def)
    show "s < of_int (2 ^ n) + 1" using j1 by (simp add: s_def)
  qed
  have nat2: "nat ((2::int) ^ n) = 2 ^ n" by (simp add: nat_power_eq)
  have "ilog2 (nat ((2::int) ^ n)) = n" by (simp only: nat2 ilog2_pow2)
  then have ex: "exponent2 s = int n"
    using s1 by (simp add: exponent2_def fl)
  have u: "pow2 (int n - 52) = 1 / 2 ^ m"
  proof (cases "n = 52")
    case True
    then show ?thesis by (simp add: pow2_def m_def)
  next
    case False
    then have "int n - 52 < 0" "nat (52 - int n) = m" using n by (simp_all add: m_def)
    then show ?thesis by (simp add: pow2_def)
  qed
  have rd: "float_add (2 ^ n) j = of_int (round_half_even q) / 2 ^ m"
    using s1 ex u
    by (simp add: float_add_def round_double_def Let_def s_def [symmetric] q_def max_def)
  have lo: "of_int (2 ^ 52) \<le> q"
    using j0 p52 by (simp add: q_def s_def algebra_simps)
  have hi: "q \<le> of_int (2 ^ 52 + 2 ^ m)"
    using j1 p52 by (simp add: q_def s_def algebra_simps)
  note bi = round_half_even_between [OF lo hi]
  have "(of_int (2 ^ 52) :: real) \<le> of_int (round_half_even q)"
    using bi by (simp only: of_int_le_iff)
  moreover have "(of_int (round_half_even q) :: real) \<le> of_int (2 ^ 52 + 2 ^ m)"
    using bi by (simp only: of_int_le_iff)
  ultimately have b: "(2::real) ^ 52 \<le> of_int (round_half_even q)"
    "of_int (round_half_even q) \<le> (2::real) ^ 52 + 2 ^ m"
    by simp_all
  have pm: "(0::real) < 2 ^ m" by simp
  have l1: "2 ^ n \<le> of_int (round_half_even q) / (2::real) ^ m"
    using b(1) p52 pm by (simp add: pos_le_divide_eq)
  have l2: "of_int (round_half_even q) / (2::real) ^ m \<le> 2 ^ n + 1"
    using b(2) p52 pm by (simp add: pos_divide_le_eq algebra_simps)
  have "\<bar>of_int (round_half_even q) / (2::real) ^ m - s\<bar> =
        \<bar>of_int (round_half_even q) - q\<bar> / 2 ^ m"
    using pm by (simp add: q_def abs_if field_simps)
  also have "\<dots> \<le> (1 / 2) / 2 ^ m"
    by (rule divide_right_mono [OF round_half_even_near]) simp
  also have "\<dots> = 2 ^ n / 2 ^ 53"
  proof -
    have "(2::real) ^ 53 = 2 * (2 ^ n * 2 ^ m)" using p52 by simp
    then show ?thesis by (simp add: field_simps)
  qed
  finally have l3: "\<bar>of_int (round_half_even q) / (2::real) ^ m - s\<bar> \<le> 2 ^ n / 2 ^ 53" .
  show ?thesis using l1 l2 l3 unfolding rd s_def by simp
qed

section \<open>Evaluating the examples\<close>

lemmas validate_eval_defs =
  validate_def check_fabrication_def FABRICATION_MARKERS_def regex_defs
  check_platform_limits_def PLATFORM_MAX_CHARS_def check_not_empty_def strip_def
  py_isspace_def

lemma example_content_passes:
  "passed (validate L example_content (ascii ''x''))"
  "passed (validate L example_content (ascii ''linkedin''))"
  by (simp_all add: validate_eval_defs example_content_def)

lemma short_content_fails:
  "failures (validate L (ascii ''short'') (ascii ''x'')) = [ascii ''Content is empty or too short'']"
  by (simp add: validate_eval_defs)

lemma retry_eval_defs_upt: "[0..<3] = [0, 1, 2::nat]"
  by (simp add: upt_rec)

lemmas retry_eval_defs =
  generate_def call_with_retry_def retry_eval_defs_upt attempt_call_def rate_limited_def
  api_failed_def uniform_def MAX_RETRIES_def float_eval_defs

lemma example_generate:
  "generate example_env pil plat =
     ([MessagesCreate (user_prompt pil plat)], Inr (Some example_content))"
  by (simp add: retry_eval_defs example_env_def)


section \<open>Properties of the X publisher\<close>

lemma post_tweet_events:
  "ev \<in> set (fst (post_tweet L E self text)) \<Longrightarrow> \<exists>h. ev = HttpPost TWEET_ENDPOINT h text"
  by (auto simp: post_tweet_def Let_def split: sum.splits)

lemma twitter_publish_events:
  "fst (twitter_publish L E self content) = fst (post_tweet L E self (truncate_tweet content))"
  by (simp add: twitter_publish_def Let_def case_prod_unfold split: sum.splits)

lemma truncate_tweet_length: "length (truncate_tweet c) \<le> 280"
  by (simp add: truncate_tweet_def MAX_TWEET_LENGTH_def)

text \<open>
  Claim C9.  The truncation step of the X publisher returns content of at most 280
  characters unchanged and otherwise its first 279 characters followed by the one
  ellipsis character, 280 characters in all; so its result never exceeds 280
  characters, and every request \<open>publish\<close> sends carries exactly the truncated
  content as its text.
\<close>

theorem truncate_tweet_bounds_posted_text:
  "(length content \<le> 280 \<longrightarrow> truncate_tweet content = content)
   \<and> (280 < length content \<longrightarrow>
        truncate_tweet content = take 279 content @ [8230] \<and>
        length (truncate_tweet content) = 280)
   \<and> length (truncate_tweet content) \<le> 280
   \<and> (\<forall>url headers text.
        HttpPost url headers text \<in> set (fst (twitter_publish L E self content)) \<longrightarrow>
        text = truncate_tweet content \<and> length text \<le> 280)"
proof -
  have "text' = truncate_tweet content \<and> length text' \<le> 280"
    if "HttpPost url headers text' \<in> set (fst (twitter_publish L E self content))"
    for url headers text'
    using post_tweet_events [of "HttpPost url headers text'" L E self "truncate_tweet content"]
      that truncate_tweet_length [of content]
    by (simp add: twitter_publish_events)
  then show ?thesis
    by (simp add: truncate_tweet_def MAX_TWEET_LENGTH_def)
qed


theorem truncate_tweet_witness:
  "length example_content \<le> 280
   \<and> truncate_tweet example_content = example_content
   \<and> 280 < length (replicate 300 (97::nat))
   \<and> truncate_tweet (replicate 300 97) = replicate 279 97 @ [8230]
   \<and> length (truncate_tweet (replicate 300 97)) = 280"
  using truncate_tweet_bounds_posted_text [of example_content example_lib example_env undefined]
    truncate_tweet_bounds_posted_text [of "replicate 300 97" example_lib example_env undefined]
  by (simp add: example_content_def ascii_def)


section \<open>Properties of the retry loop\<close>

lemma retry_step_rate_limit:
  assumes "attempt_call E p n = Inl e" "exn_class_of e = RateLimitError" "Suc n < MAX_RETRIES"
  shows "retry_loop E p [n..<MAX_RETRIES] =
           (MessagesCreate p #
              Sleep (float_add (2 ^ n) (uniform 0 1 (random_draw E p n))) #
              fst (retry_loop E p [Suc n..<MAX_RETRIES]),
            snd (retry_loop E p [Suc n..<MAX_RETRIES]))"
proof -
  have "[n..<MAX_RETRIES] = n # [Suc n..<MAX_RETRIES]"
    using assms(3) by (simp add: upt_conv_Cons)
  then show ?thesis using assms by (simp add: case_prod_unfold Let_def)
qed

lemma retry_step_api_error:
  assumes "attempt_call E p n = Inl e" "exn_class_of e = APIError" "Suc n < MAX_RETRIES"
  shows "retry_loop E p [n..<MAX_RETRIES] =
           (MessagesCreate p # Sleep 1 # fst (retry_loop E p [Suc n..<MAX_RETRIES]),
            snd (retry_loop E p [Suc n..<MAX_RETRIES]))"
proof -
  have "[n..<MAX_RETRIES] = n # [Suc n..<MAX_RETRIES]"
    using assms(3) by (simp add: upt_conv_Cons)
  then show ?thesis using assms by (simp add: case_prod_unfold Let_def)
qed

lemma retry_last_rate_limit:
  assumes "attempt_call E p n = Inl e" "exn_class_of e = RateLimitError" "Suc n = MAX_RETRIES"
  shows "retry_loop E p [n..<MAX_RETRIES] =
           ([MessagesCreate p],
            Inl (Exn ContentGenerationError (ascii ''Rate limit exceeded after max retries'')))"
proof -
  have "[n..<MAX_RETRIES] = [n]" "n = MAX_RETRIES - 1"
    using assms(3) by (simp_all add: upt_conv_Cons)
  then show ?thesis using assms by simp
qed

lemma retry_last_api_error:
  assumes "attempt_call E p n = Inl e" "exn_class_of e = APIError" "Suc n = MAX_RETRIES"
  shows "retry_loop E p [n..<MAX_RETRIES] =
           ([MessagesCreate p],
            Inl (Exn ContentGenerationError
                   (ascii ''API error after 3 attempts: '' @ exn_str e)))"
proof -
  have "[n..<MAX_RETRIES] = [n]" "n = MAX_RETRIES - 1"
    using assms(3) by (simp_all add: upt_conv_Cons)
  moreover have "str_nat MAX_RETRIES = ascii ''3''" by (simp add: MAX_RETRIES_def ascii_def)
  ultimately show ?thesis using assms by (simp add: ascii_def)
qed

lemma retry_other:
  assumes "attempt_call E p n = Inl e" "exn_class_of e \<noteq> RateLimitError"
    "exn_class_of e \<noteq> APIError" "n < MAX_RETRIES"
  shows "retry_loop E p [n..<MAX_RETRIES] = ([MessagesCreate p], Inl e)"
proof -
  have "[n..<MAX_RETRIES] = n # [Suc n..<MAX_RETRIES]"
    using assms(4) by (simp add: upt_conv_Cons)
  then show ?thesis using assms by simp
qed

lemma retry_success:
  assumes "attempt_call E p n = Inr t" "n < MAX_RETRIES"
  shows "retry_loop E p [n..<MAX_RETRIES] = ([MessagesCreate p], Inr (Some t))"
proof -
  have "[n..<MAX_RETRIES] = n # [Suc n..<MAX_RETRIES]"
    using assms(2) by (simp add: upt_conv_Cons)
  then show ?thesis using assms by simp
qed


lemma retry_loop_head:
  assumes "m < MAX_RETRIES"
  shows "\<exists>more. fst (retry_loop E p [m..<MAX_RETRIES]) = MessagesCreate p # more"
proof -
  have "[m..<MAX_RETRIES] = m # [Suc m..<MAX_RETRIES]"
    using assms by (simp add: upt_conv_Cons)
  then show ?thesis
    by (simp add: case_prod_unfold Let_def split: sum.split)
qed

lemma retry_step_retryable:
  assumes "\<exists>e. attempt_call E p n = Inl e \<and>
       (exn_class_of e = RateLimitError \<or> exn_class_of e = APIError)" "Suc n < MAX_RETRIES"
  shows "\<exists>d. retry_loop E p [n..<MAX_RETRIES] =
           (MessagesCreate p # Sleep d # fst (retry_loop E p [Suc n..<MAX_RETRIES]),
            snd (retry_loop E p [Suc n..<MAX_RETRIES]))"
  using assms retry_step_rate_limit [of E p n] retry_step_api_error [of E p n]
  by blast

lemma retry_reach:
  assumes "n < MAX_RETRIES" "\<forall>i<n. \<exists>e. attempt_call E p i = Inl e \<and>
       (exn_class_of e = RateLimitError \<or> exn_class_of e = APIError)"
  shows "\<exists>pre. length pre = 2 * n \<and>
           (\<forall>i<n. pre ! (2 * i) = MessagesCreate p \<and> (\<exists>d. pre ! (2 * i + 1) = Sleep d)) \<and>
           call_with_retry E p =
             (pre @ fst (retry_loop E p [n..<MAX_RETRIES]),
              snd (retry_loop E p [n..<MAX_RETRIES]))"
  using assms
proof (induction n)
  case 0
  show ?case by (simp add: call_with_retry_def)
next
  case (Suc n)
  then obtain pre where pre: "length pre = 2 * n"
    "\<forall>i<n. pre ! (2 * i) = MessagesCreate p \<and> (\<exists>d. pre ! (2 * i + 1) = Sleep d)"
    "call_with_retry E p =
       (pre @ fst (retry_loop E p [n..<MAX_RETRIES]), snd (retry_loop E p [n..<MAX_RETRIES]))"
    by auto
  from Suc.prems obtain d where d: "retry_loop E p [n..<MAX_RETRIES] =
           (MessagesCreate p # Sleep d # fst (retry_loop E p [Suc n..<MAX_RETRIES]),
            snd (retry_loop E p [Suc n..<MAX_RETRIES]))"
    using retry_step_retryable [of E p n] by auto
  let ?pre = "pre @ [MessagesCreate p, Sleep d]"
  have "length ?pre = 2 * Suc n" using pre(1) by simp
  moreover have "?pre ! (2 * i) = MessagesCreate p \<and> (\<exists>d. ?pre ! (2 * i + 1) = Sleep d)"
    if "i < Suc n" for i
  proof (cases "i < n")
    case True
    then have "2 * i < length pre" "2 * i + 1 < length pre" using pre(1) by simp_all
    then show ?thesis using pre(2) True by (simp add: nth_append)
  next
    case False
    then have "i = n" using that by simp
    then show ?thesis using pre(1) by (simp add: nth_append)
  qed
  moreover have "call_with_retry E p =
       (?pre @ fst (retry_loop E p [Suc n..<MAX_RETRIES]),
        snd (retry_loop E p [Suc n..<MAX_RETRIES]))"
    using pre(3) d by simp
  ultimately show ?case by blast
qed

lemma uniform_unit: "0 \<le> r \<Longrightarrow> r < 1 \<Longrightarrow> 0 \<le> uniform 0 1 r \<and> uniform 0 1 r < 1"
  by (simp add: uniform_def)

lemma count_calls:
  "length (filter (\<lambda>ev. ev = MessagesCreate p) (fst (retry_loop E p as))) \<le> length as"
  by (induction as) (auto simp: case_prod_unfold Let_def split: sum.split)

text \<open>
  Claim C4, with the sleep after a rate limit as the code computes it: the rounded
  sum, which can reach \<open>2 ^ n + 1\<close>.  Take random draws in \<open>[0,1)\<close> and an attempt \<open>n\<close> below \<open>MAX_RETRIES\<close> that is
  reached, that is, every earlier attempt failed with a rate-limit or a generic
  backend error.  Then the run made \<open>n\<close> calls and \<open>n\<close> sleeps before it, makes the
  call of attempt \<open>n\<close>, and continues according to that call's outcome: a text is
  returned at once; a rate-limit failure on the last attempt raises
  \<open>ContentGenerationError\<close> with no further sleep or call, and on an earlier attempt
  is followed by a sleep of the float sum of \<open>2 ^ n\<close> and a jitter in \<open>[0,1)\<close>, a
  duration between \<open>2 ^ n\<close> and \<open>2 ^ n + 1\<close>, both included, and within \<open>2 ^ n / 2 ^ 53\<close> of
  the exact sum, and then the next call; a generic backend failure on the last attempt raises \<open>ContentGenerationError\<close> with
  the attempt count and the underlying message, and on an earlier attempt is
  followed by a sleep of one second and then the next call; any other exception
  is raised at once, unchanged.  No run makes more than \<open>MAX_RETRIES\<close> calls.
\<close>

theorem call_with_retry_backoff_policy:
  assumes n: "n < MAX_RETRIES"
    and draws: "\<forall>k. 0 \<le> random_draw E prompt k \<and> random_draw E prompt k < 1"
    and before: "\<forall>i<n. \<exists>e. attempt_call E prompt i = Inl e \<and>
                   (exn_class_of e = RateLimitError \<or> exn_class_of e = APIError)"
  shows "\<exists>pre tail outcome.
      call_with_retry E prompt = (pre @ MessagesCreate prompt # tail, outcome) \<and>
      length pre = 2 * n \<and>
      (\<forall>i<n. pre ! (2 * i) = MessagesCreate prompt \<and> (\<exists>d. pre ! (2 * i + 1) = Sleep d)) \<and>
      (case attempt_call E prompt n of
         Inr t \<Rightarrow> tail = [] \<and> outcome = Inr (Some t)
       | Inl e \<Rightarrow>
           if exn_class_of e = RateLimitError then
             if n = MAX_RETRIES - 1
             then tail = [] \<and>
                  outcome = Inl (Exn ContentGenerationError
                                   (ascii ''Rate limit exceeded after max retries''))
             else \<exists>jitter more. 0 \<le> jitter \<and> jitter < 1 \<and>
                    tail = Sleep (float_add (2 ^ n) jitter) # MessagesCreate prompt # more \<and>
                    2 ^ n \<le> float_add (2 ^ n) jitter \<and>
                    float_add (2 ^ n) jitter \<le> 2 ^ n + 1 \<and>
                    \<bar>float_add (2 ^ n) jitter - (2 ^ n + jitter)\<bar> \<le> 2 ^ n / 2 ^ 53
           else if exn_class_of e = APIError then
             if n = MAX_RETRIES - 1
             then tail = [] \<and>
                  outcome = Inl (Exn ContentGenerationError
                                   (ascii ''API error after 3 attempts: '' @ exn_str e))
             else \<exists>more. tail = Sleep 1 # MessagesCreate prompt # more
           else tail = [] \<and> outcome = Inl e) \<and>
      length (filter (\<lambda>ev. ev = MessagesCreate prompt) (fst (call_with_retry E prompt)))
        \<le> MAX_RETRIES"
proof -
  let ?S = "retry_loop E prompt [n..<MAX_RETRIES]"
  let ?N = "retry_loop E prompt [Suc n..<MAX_RETRIES]"
  from retry_reach [OF n before] obtain pre where pre: "length pre = 2 * n"
    "\<forall>i<n. pre ! (2 * i) = MessagesCreate prompt \<and> (\<exists>d. pre ! (2 * i + 1) = Sleep d)"
    "call_with_retry E prompt = (pre @ fst ?S, snd ?S)"
    by blast
  obtain tail where tail: "fst ?S = MessagesCreate prompt # tail"
    using retry_loop_head [OF n] by blast
  have cnt: "length (filter (\<lambda>ev. ev = MessagesCreate prompt) (fst (call_with_retry E prompt)))
        \<le> MAX_RETRIES"
    using count_calls [of prompt E "[0..<MAX_RETRIES]"] by (simp add: call_with_retry_def)
  have cases: "(case attempt_call E prompt n of
         Inr t \<Rightarrow> tail = [] \<and> snd ?S = Inr (Some t)
       | Inl e \<Rightarrow>
           if exn_class_of e = RateLimitError then
             if n = MAX_RETRIES - 1
             then tail = [] \<and>
                  snd ?S = Inl (Exn ContentGenerationError
                                   (ascii ''Rate limit exceeded after max retries''))
             else \<exists>jitter more. 0 \<le> jitter \<and> jitter < 1 \<and>
                    tail = Sleep (float_add (2 ^ n) jitter) # MessagesCreate prompt # more \<and>
                    2 ^ n \<le> float_add (2 ^ n) jitter \<and>
                    float_add (2 ^ n) jitter \<le> 2 ^ n + 1 \<and>
                    \<bar>float_add (2 ^ n) jitter - (2 ^ n + jitter)\<bar> \<le> 2 ^ n / 2 ^ 53
           else if exn_class_of e = APIError then
             if n = MAX_RETRIES - 1
             then tail = [] \<and>
                  snd ?S = Inl (Exn ContentGenerationError
                                   (ascii ''API error after 3 attempts: '' @ exn_str e))
             else \<exists>more. tail = Sleep 1 # MessagesCreate prompt # more
           else tail = [] \<and> snd ?S = Inl e)"
  proof (cases "attempt_call E prompt n")
    case (Inr t)
    then show ?thesis using retry_success [OF Inr n] tail by simp
  next
    case (Inl e)
    show ?thesis
    proof (cases "Suc n = MAX_RETRIES")
      case True
      then have last: "n = MAX_RETRIES - 1" by simp
      show ?thesis
        using Inl last tail retry_last_rate_limit [OF Inl _ True]
          retry_last_api_error [OF Inl _ True] retry_other [OF Inl _ _ n]
        by (cases "exn_class_of e = RateLimitError"; cases "exn_class_of e = APIError") simp_all
    next
      case False
      then have more: "Suc n < MAX_RETRIES" and notlast: "n \<noteq> MAX_RETRIES - 1"
        using n by simp_all
      obtain more where nxt: "fst ?N = MessagesCreate prompt # more"
        using retry_loop_head [OF more] by blast
      have j: "0 \<le> uniform 0 1 (random_draw E prompt n) \<and> uniform 0 1 (random_draw E prompt n) < 1"
        using draws uniform_unit by blast
      have "n \<le> 52" using n by (simp add: MAX_RETRIES_def)
      note fa = float_add_pow2_jitter [OF conjunct1 [OF j] conjunct2 [OF j] this]
      show ?thesis
      proof (cases "exn_class_of e = RateLimitError")
        case True
        from retry_step_rate_limit [OF Inl True more] tail nxt
        have "tail = Sleep (float_add (2 ^ n) (uniform 0 1 (random_draw E prompt n))) #
                MessagesCreate prompt # more" by simp
        then show ?thesis using Inl True notlast j fa by auto
      next
        case nrl: False
        show ?thesis
        proof (cases "exn_class_of e = APIError")
          case True
          from retry_step_api_error [OF Inl True more] tail nxt
          have "tail = Sleep 1 # MessagesCreate prompt # more" by simp
          then show ?thesis using Inl True nrl notlast by auto
        next
          case False
          then show ?thesis using Inl nrl tail retry_other [OF Inl nrl False n] by simp
        qed
      qed
    qed
  qed
  have "call_with_retry E prompt = (pre @ MessagesCreate prompt # tail, snd ?S)"
    using pre(3) tail by simp
  with pre(1,2) cases cnt show ?thesis by blast
qed

text \<open>
  Two rate limits and then a text: sleeps of 1.5 and 2.5 seconds with every draw one
  half; three rate limits, or three backend errors with sleeps of one second, end
  in \<open>ContentGenerationError\<close> after the third call; another exception ends the run
  at the first call.
\<close>

theorem call_with_retry_witness:
  "1 < MAX_RETRIES
   \<and> (\<forall>k. 0 \<le> random_draw example_env (ascii ''p'') k \<and> random_draw example_env (ascii ''p'') k < 1)
   \<and> attempt_call
        (example_env\<lparr>messages_create :=
           (\<lambda>p k. if k < 2 then rate_limited else Inr [TextBlock example_content])\<rparr>)
        (ascii ''p'') 0 = Inl (Exn RateLimitError (ascii ''429''))
   \<and> (\<exists>pre jitter more.
        call_with_retry
          (example_env\<lparr>messages_create :=
             (\<lambda>p k. if k < 2 then rate_limited else Inr [TextBlock example_content])\<rparr>)
          (ascii ''p'') =
          (pre @ MessagesCreate (ascii ''p'') # Sleep (float_add (2 ^ 1) jitter) #
             MessagesCreate (ascii ''p'') # more,
           Inr (Some example_content)) \<and>
        length pre = 2 \<and> 0 \<le> jitter \<and> jitter < 1)
   \<and> call_with_retry
        (example_env\<lparr>messages_create :=
           (\<lambda>p k. if k < 2 then rate_limited else Inr [TextBlock example_content])\<rparr>)
        (ascii ''p'') =
        ([MessagesCreate (ascii ''p''), Sleep (3 / 2), MessagesCreate (ascii ''p''),
          Sleep (5 / 2), MessagesCreate (ascii ''p'')],
         Inr (Some example_content))
   \<and> (\<exists>pre. call_with_retry (example_env\<lparr>messages_create := (\<lambda>p k. rate_limited)\<rparr>)
               (ascii ''p'') =
             (pre @ [MessagesCreate (ascii ''p'')],
              Inl (Exn ContentGenerationError
                     (ascii ''Rate limit exceeded after max retries''))) \<and>
             length pre = 4)
   \<and> (\<exists>pre. call_with_retry (example_env\<lparr>messages_create := (\<lambda>p k. api_failed)\<rparr>)
               (ascii ''p'') =
             (pre @ [MessagesCreate (ascii ''p'')],
              Inl (Exn ContentGenerationError
                     (ascii ''API error after 3 attempts: boom''))) \<and>
             length pre = 4)
   \<and> call_with_retry (example_env\<lparr>messages_create := (\<lambda>p k. api_failed)\<rparr>) (ascii ''p'') =
        ([MessagesCreate (ascii ''p''), Sleep 1, MessagesCreate (ascii ''p''), Sleep 1,
          MessagesCreate (ascii ''p'')],
         Inl (Exn ContentGenerationError (ascii ''API error after 3 attempts: boom'')))
   \<and> call_with_retry
        (example_env\<lparr>messages_create := (\<lambda>p k. Inl (Exn OtherException (ascii ''bug'')))\<rparr>)
        (ascii ''p'') =
        ([MessagesCreate (ascii ''p'')], Inl (Exn OtherException (ascii ''bug'')))"
proof -
  let ?P = "ascii ''p''"
  let ?E2 = "example_env\<lparr>messages_create :=
           (\<lambda>p k. if k < 2 then rate_limited else Inr [TextBlock example_content])\<rparr>"
  let ?ER = "example_env\<lparr>messages_create := (\<lambda>p k. rate_limited)\<rparr>"
  let ?EA = "example_env\<lparr>messages_create := (\<lambda>p k. api_failed)\<rparr>"
  let ?EO = "example_env\<lparr>messages_create := (\<lambda>p k. Inl (Exn OtherException (ascii ''bug'')))\<rparr>"
  have one: "1 < MAX_RETRIES" and two: "2 < MAX_RETRIES" and zero: "0 < MAX_RETRIES"
    by (simp_all add: MAX_RETRIES_def)
  have d0: "\<forall>k. 0 \<le> random_draw example_env ?P k \<and> random_draw example_env ?P k < 1"
    and d2: "\<forall>k. 0 \<le> random_draw ?E2 ?P k \<and> random_draw ?E2 ?P k < 1"
    and dR: "\<forall>k. 0 \<le> random_draw ?ER ?P k \<and> random_draw ?ER ?P k < 1"
    and dA: "\<forall>k. 0 \<le> random_draw ?EA ?P k \<and> random_draw ?EA ?P k < 1"
    and dO: "\<forall>k. 0 \<le> random_draw ?EO ?P k \<and> random_draw ?EO ?P k < 1"
    by (simp_all add: example_env_def)
  have a0: "attempt_call ?E2 ?P 0 = Inl (Exn RateLimitError (ascii ''429''))"
    by (simp add: attempt_call_def rate_limited_def)
  have b2: "\<forall>i<1. \<exists>e. attempt_call ?E2 ?P i = Inl e \<and>
              (exn_class_of e = RateLimitError \<or> exn_class_of e = APIError)"
    by (simp add: attempt_call_def rate_limited_def)
  have bR: "\<forall>i<2. \<exists>e. attempt_call ?ER ?P i = Inl e \<and>
              (exn_class_of e = RateLimitError \<or> exn_class_of e = APIError)"
    by (simp add: attempt_call_def rate_limited_def)
  have bA: "\<forall>i<2. \<exists>e. attempt_call ?EA ?P i = Inl e \<and>
              (exn_class_of e = RateLimitError \<or> exn_class_of e = APIError)"
    by (simp add: attempt_call_def api_failed_def)
  have bO: "\<forall>i<0. \<exists>e. attempt_call ?EO ?P i = Inl e \<and>
              (exn_class_of e = RateLimitError \<or> exn_class_of e = APIError)"
    by simp
  have e2: "call_with_retry ?E2 ?P =
        ([MessagesCreate ?P, Sleep (3 / 2), MessagesCreate ?P, Sleep (5 / 2), MessagesCreate ?P],
         Inr (Some example_content))"
    by (simp add: retry_eval_defs example_env_def)
  have eA: "call_with_retry ?EA ?P =
        ([MessagesCreate ?P, Sleep 1, MessagesCreate ?P, Sleep 1, MessagesCreate ?P],
         Inl (Exn ContentGenerationError (ascii ''API error after 3 attempts: boom'')))"
    by (simp add: retry_eval_defs example_env_def ascii_def)
  have c2: "\<exists>pre jitter more.
        call_with_retry ?E2 ?P =
          (pre @ MessagesCreate ?P # Sleep (float_add (2 ^ 1) jitter) # MessagesCreate ?P # more,
           Inr (Some example_content)) \<and>
        length pre = 2 \<and> 0 \<le> jitter \<and> jitter < 1"
    using call_with_retry_backoff_policy [OF one d2 b2] e2
    by (auto simp: attempt_call_def rate_limited_def MAX_RETRIES_def)
  have cR: "\<exists>pre. call_with_retry ?ER ?P =
             (pre @ [MessagesCreate ?P],
              Inl (Exn ContentGenerationError
                     (ascii ''Rate limit exceeded after max retries''))) \<and>
             length pre = 4"
    using call_with_retry_backoff_policy [OF two dR bR]
    by (auto simp: attempt_call_def rate_limited_def MAX_RETRIES_def)
  have cA: "\<exists>pre. call_with_retry ?EA ?P =
             (pre @ [MessagesCreate ?P],
              Inl (Exn ContentGenerationError
                     (ascii ''API error after 3 attempts: boom''))) \<and>
             length pre = 4"
    using call_with_retry_backoff_policy [OF two dA bA]
    by (auto simp: attempt_call_def api_failed_def MAX_RETRIES_def ascii_def)
  have cO: "call_with_retry ?EO ?P = ([MessagesCreate ?P], Inl (Exn OtherException (ascii ''bug'')))"
    using call_with_retry_backoff_policy [OF zero dO bO]
    by (auto simp: attempt_call_def)
  show ?thesis
    using one d0 a0 c2 e2 cR cA eA cO by blast
qed

text \<open>
  The claim as written, a sleep of exactly \<open>2 ^ n\<close> plus a jitter below 1, fails where
  the sum rounds up: with the first call rate-limited and the jitter drawn
  \<open>1 - 1 / 2 ^ 53\<close>, the loop sleeps 2 seconds, which is not 1 plus that jitter and
  exceeds 1 by a whole second.
\<close>

theorem backoff_exact_sum_counterexample:
  "0 \<le> random_draw rounding_env (ascii ''p'') 0
   \<and> random_draw rounding_env (ascii ''p'') 0 < 1
   \<and> attempt_call rounding_env (ascii ''p'') 0 = Inl (Exn RateLimitError (ascii ''429''))
   \<and> 0 \<noteq> MAX_RETRIES - 1
   \<and> uniform 0 1 (random_draw rounding_env (ascii ''p'') 0) = 1 - 1 / 2 ^ 53
   \<and> call_with_retry rounding_env (ascii ''p'') =
       ([MessagesCreate (ascii ''p''), Sleep 2, MessagesCreate (ascii ''p'')],
        Inr (Some example_content))
   \<and> (2::real) \<noteq> 2 ^ 0 + (1 - 1 / 2 ^ 53)
   \<and> \<not> (2::real) - 2 ^ 0 < 1"
  by (simp add: retry_eval_defs rounding_env_def example_env_def)

section \<open>Properties of the orchestrator\<close>

subsection \<open>The task dictionary and the result mapping\<close>

lemma dict_set_fresh: "k \<notin> fst ` set d \<Longrightarrow> dict_set d k v = d @ [(k, v)]"
  by (induction d) auto

lemma dict_set_present:
  "dict_set (map (\<lambda>k. (k, f k)) ks) k (f k) =
     map (\<lambda>k. (k, f k)) (if k \<in> set ks then ks else ks @ [k])"
  by (induction ks) auto

lemma foldl_dict_set_distinct:
  "distinct (map fst ps) \<Longrightarrow> fst ` set d \<inter> fst ` set ps = {} \<Longrightarrow>
   foldl (\<lambda>d (k, v). dict_set d k v) d ps = d @ ps"
proof (induction ps arbitrary: d)
  case Nil
  show ?case by simp
next
  case (Cons kv ps)
  obtain k v where kv: "kv = (k, v)" by (cases kv)
  have fresh: "k \<notin> fst ` set d" using Cons.prems(2) kv by auto
  have "fst ` set (d @ [(k, v)]) \<inter> fst ` set ps = {}"
    using Cons.prems kv by auto
  moreover have "distinct (map fst ps)" using Cons.prems(1) by simp
  ultimately have "foldl (\<lambda>d (k, v). dict_set d k v) (d @ [(k, v)]) ps = (d @ [(k, v)]) @ ps"
    by (rule Cons.IH [rotated])
  then show ?case using fresh kv by (simp add: dict_set_fresh)
qed

lemma dict_of_pairs_distinct: "distinct (map fst ps) \<Longrightarrow> dict_of_pairs ps = ps"
  using foldl_dict_set_distinct [of ps "[]"] by (simp add: dict_of_pairs_def)

lemma build_tasks_fold:
  "foldl (\<lambda>tasks platform.
              if platform \<in> set SUPPORTED_PLATFORMS
              then dict_set tasks platform (GenerateAndPublish platform)
              else tasks) (map (\<lambda>k. (k, GenerateAndPublish k)) ks) ps =
   map (\<lambda>k. (k, GenerateAndPublish k)) (task_keys ks ps)"
proof (induction ps arbitrary: ks)
  case Nil
  show ?case by simp
next
  case (Cons p ps)
  show ?case
    using Cons [of "if p \<in> set ks then ks else ks @ [p]"] Cons [of ks]
      dict_set_present [of GenerateAndPublish ks p]
    by (simp del: map_append)
qed

lemma build_tasks_keys:
  "build_tasks config = map (\<lambda>k. (k, GenerateAndPublish k)) (task_keys [] (platforms config))"
  using build_tasks_fold [of "[]" "platforms config"] by (simp add: build_tasks_def)

lemma task_keys_set:
  "set (task_keys ks ps) = set ks \<union> (set ps \<inter> set SUPPORTED_PLATFORMS)"
  by (induction ps arbitrary: ks) auto

lemma task_keys_distinct: "distinct ks \<Longrightarrow> distinct (task_keys ks ps)"
  by (induction ps arbitrary: ks) auto

lemma run_result:
  "snd (run L E config) =
     Inr (map (\<lambda>p. (p, snd (generate_and_publish L E config p)))
            (task_keys [] (platforms config)))"
proof -
  let ?ks = "task_keys [] (platforms config)"
  let ?ps = "zip ?ks (map (\<lambda>p. snd (generate_and_publish L E config p)) ?ks)"
  have "map fst ?ps = ?ks" by simp
  then have "distinct (map fst ?ps)" using task_keys_distinct [of "[]"] by simp
  then have "dict_of_pairs ?ps = ?ps" by (rule dict_of_pairs_distinct)
  moreover have "?ps = map (\<lambda>p. (p, snd (generate_and_publish L E config p))) ?ks"
    by (simp add: zip_map2 zip_same_conv_map)
  ultimately show ?thesis
    by (simp add: run_def build_tasks_keys gather_return_exceptions_def and_then_def
        comp_def Let_def)
qed

lemma run_traces:
  "fst (run L E config) =
     map (\<lambda>p. fst (generate_and_publish L E config p)) (task_keys [] (platforms config))"
  by (simp add: run_def build_tasks_keys gather_return_exceptions_def comp_def Let_def)




subsection \<open>Validation and dry-run before publishing\<close>

lemma retry_loop_no_publisher:
  "ev \<in> set (fst (retry_loop E p as)) \<Longrightarrow> \<not> publisher_event ev"
  by (induction as) (auto simp: case_prod_unfold Let_def split: sum.splits if_splits)

lemma generate_no_publisher:
  "ev \<in> set (fst (generate E pil plat)) \<Longrightarrow> \<not> publisher_event ev"
  using retry_loop_no_publisher by (simp add: generate_def call_with_retry_def)

lemma task_rejected:
  assumes "snd (generate E (pillar config) platform) = Inr (Some content)"
    and "\<not> passed (validate L content platform)"
  shows "generate_and_publish L E config platform =
           (fst (generate E (pillar config) platform),
            Inl (Exn ValueError
                   (ascii ''Validation failed for '' @ platform @ ascii '': '' @
                    repr_list L (failures (validate L content platform)))))"
  using assms by (simp add: generate_and_publish_def case_prod_unfold Let_def)

lemma task_dry_run:
  assumes "snd (generate E (pillar config) platform) = Inr (Some content)"
    and "passed (validate L content platform)" and "dry_run config"
  shows "generate_and_publish L E config platform =
           (fst (generate E (pillar config) platform),
            Inr (ascii ''[DRY RUN] Would publish to '' @ platform))"
  using assms by (simp add: generate_and_publish_def case_prod_unfold Let_def)

lemma task_publishes:
  assumes "snd (generate E (pillar config) platform) = Inr (Some content)"
    and "passed (validate L content platform)" and "\<not> dry_run config"
  shows "GetPublisher platform \<in> set (fst (generate_and_publish L E config platform))"
  using assms
  by (simp add: generate_and_publish_def case_prod_unfold Let_def split: sum.split)

lemma task_dry_run_no_publisher:
  assumes "dry_run config" and "ev \<in> set (fst (generate_and_publish L E config platform))"
  shows "\<not> publisher_event ev"
proof -
  have "fst (generate_and_publish L E config platform) = fst (generate E (pillar config) platform)"
    using assms(1)
    by (simp add: generate_and_publish_def case_prod_unfold Let_def
        split: sum.split option.split)
  then show ?thesis using assms(2) generate_no_publisher by simp
qed

text \<open>
  Claim C7.  For every platform task: when the generated content fails validation,
  the task causes no publisher event and raises the validation error; when the
  dry-run flag is set and the content passes, it causes no publisher event and
  returns the synthetic would-publish status; under dry-run no task of \<open>run\<close>
  causes a publisher event, whatever happens in it.  (Without dry-run, content that
  passes does reach the publisher registry.)
\<close>

theorem no_publisher_on_rejection_or_dry_run:
  "(\<forall>content.
      snd (generate E (pillar config) platform) = Inr (Some content) \<and>
      \<not> passed (validate L content platform) \<longrightarrow>
      (\<forall>ev \<in> set (fst (generate_and_publish L E config platform)). \<not> publisher_event ev) \<and>
      snd (generate_and_publish L E config platform) =
        Inl (Exn ValueError
               (ascii ''Validation failed for '' @ platform @ ascii '': '' @
                repr_list L (failures (validate L content platform)))))
   \<and> (\<forall>content.
        dry_run config \<and>
        snd (generate E (pillar config) platform) = Inr (Some content) \<and>
        passed (validate L content platform) \<longrightarrow>
        (\<forall>ev \<in> set (fst (generate_and_publish L E config platform)). \<not> publisher_event ev) \<and>
        snd (generate_and_publish L E config platform) =
          Inr (ascii ''[DRY RUN] Would publish to '' @ platform))
   \<and> (dry_run config \<longrightarrow>
        (\<forall>events \<in> set (fst (run L E config)). \<forall>ev \<in> set events. \<not> publisher_event ev))
   \<and> (\<forall>content.
        \<not> dry_run config \<and>
        snd (generate E (pillar config) platform) = Inr (Some content) \<and>
        passed (validate L content platform) \<longrightarrow>
        GetPublisher platform \<in> set (fst (generate_and_publish L E config platform)))"
proof (intro conjI allI impI ballI)
  fix content ev
  assume "snd (generate E (pillar config) platform) = Inr (Some content) \<and>
      \<not> passed (validate L content platform)"
    and "ev \<in> set (fst (generate_and_publish L E config platform))"
  then show "\<not> publisher_event ev"
    using task_rejected [of E config platform content L] generate_no_publisher by simp
next
  fix content
  assume "snd (generate E (pillar config) platform) = Inr (Some content) \<and>
      \<not> passed (validate L content platform)"
  then show "snd (generate_and_publish L E config platform) =
        Inl (Exn ValueError
               (ascii ''Validation failed for '' @ platform @ ascii '': '' @
                repr_list L (failures (validate L content platform))))"
    using task_rejected [of E config platform content L] by simp
next
  fix content ev
  assume "dry_run config \<and>
        snd (generate E (pillar config) platform) = Inr (Some content) \<and>
        passed (validate L content platform)"
    and "ev \<in> set (fst (generate_and_publish L E config platform))"
  then show "\<not> publisher_event ev"
    using task_dry_run_no_publisher by blast
next
  fix content
  assume "dry_run config \<and>
        snd (generate E (pillar config) platform) = Inr (Some content) \<and>
        passed (validate L content platform)"
  then show "snd (generate_and_publish L E config platform) =
          Inr (ascii ''[DRY RUN] Would publish to '' @ platform)"
    using task_dry_run [of E config platform content L] by simp
next
  fix events ev
  assume "dry_run config" "events \<in> set (fst (run L E config))" "ev \<in> set events"
  then show "\<not> publisher_event ev"
    using task_dry_run_no_publisher by (auto simp: run_traces)
next
  fix content
  assume "\<not> dry_run config \<and>
        snd (generate E (pillar config) platform) = Inr (Some content) \<and>
        passed (validate L content platform)"
  then show "GetPublisher platform \<in> set (fst (generate_and_publish L E config platform))"
    using task_publishes by blast
qed


subsection \<open>Isolation of the tasks\<close>

text \<open>
  A task reads the backend and the random source at its own prompt only, so what they
  answer at other prompts does not change it.
\<close>

lemma retry_loop_cong:
  assumes "\<forall>k. messages_create E' p k = messages_create E p k"
    and "\<forall>k. random_draw E' p k = random_draw E p k"
  shows "retry_loop E' p as = retry_loop E p as"
proof (induction as)
  case Nil
  show ?case by simp
next
  case (Cons a as)
  have "attempt_call E' p a = attempt_call E p a"
    using assms(1) by (simp add: attempt_call_def)
  then show ?case
    using Cons assms(2) by (simp add: case_prod_unfold Let_def split: sum.split)
qed

lemma task_depends_on_own_calls:
  assumes "\<forall>k. f (user_prompt (pillar config) p) k =
                messages_create E (user_prompt (pillar config) p) k"
    and "\<forall>k. r (user_prompt (pillar config) p) k =
                random_draw E (user_prompt (pillar config) p) k"
  shows "generate_and_publish L (E\<lparr>messages_create := f, random_draw := r\<rparr>) config p =
         generate_and_publish L E config p"
proof -
  let ?E = "E\<lparr>messages_create := f, random_draw := r\<rparr>"
  have g: "generate ?E (pillar config) p = generate E (pillar config) p"
    using assms retry_loop_cong [of ?E "user_prompt (pillar config) p" E]
    by (simp add: generate_def call_with_retry_def)
  have c: "construct_publisher ?E cls = construct_publisher E cls" for cls
    by (cases cls) (simp_all add: environ_get_def)
  have gp: "get_publisher L ?E p = get_publisher L E p"
    by (simp add: get_publisher_def c split: option.split)
  have "build_oauth_headers L ?E self m u = build_oauth_headers L E self m u" for self m u
    by (simp add: build_oauth_headers_def oauth_params0_def)
  then have "post_tweet L ?E self c = post_tweet L E self c" for self c
    by (simp add: post_tweet_def split: sum.split)
  then have "twitter_publish L ?E self c = twitter_publish L E self c" for self c
    by (simp add: twitter_publish_def)
  then have pb: "publish L ?E pub c = publish L E pub c" for pub c
    by (cases pub) simp_all
  show ?thesis
    by (simp add: generate_and_publish_def g gp pb case_prod_unfold Let_def
        split: sum.split option.split)
qed

lemma count_list_distinct:
  "distinct xs \<Longrightarrow> count_list xs x = (if x \<in> set xs then 1 else 0)"
  by (induction xs) auto

lemma map_of_graph:
  "map_of (map (\<lambda>p. (p, g p)) ks) p = (if p \<in> set ks then Some (g p) else None)"
  by (induction ks) auto

lemma build_tasks_fst: "map fst (build_tasks config) = task_keys [] (platforms config)"
  by (simp add: build_tasks_keys comp_def)

lemma build_tasks_snd:
  "map snd (build_tasks config) = map GenerateAndPublish (task_keys [] (platforms config))"
  by (simp add: build_tasks_keys comp_def)

lemma sessions_irrelevant_for_x:
  "generate_and_publish L (E\<lparr>linkedin_session := s1, medium_session := s2\<rparr>) config (ascii ''x'') =
   generate_and_publish L E config (ascii ''x'')"
proof -
  let ?E = "E\<lparr>linkedin_session := s1, medium_session := s2\<rparr>"
  have r: "retry_loop ?E p as = retry_loop E p as" for p as
    by (rule retry_loop_cong) simp_all
  have g: "generate ?E (pillar config) (ascii ''x'') = generate E (pillar config) (ascii ''x'')"
    by (simp add: generate_def call_with_retry_def r)
  have gp: "get_publisher L ?E (ascii ''x'') = get_publisher L E (ascii ''x'')"
    by (simp add: get_publisher_def publisher_table_def ascii_def environ_get_def
        split: option.split)
  have tw: "\<exists>self. pub = Twitter self" if "get_publisher L E (ascii ''x'') = Inr pub" for pub
    using that
    by (auto simp: get_publisher_def publisher_table_def ascii_def environ_get_def and_then_def
        split: option.splits)
  have "build_oauth_headers L ?E self m u = build_oauth_headers L E self m u" for self m u
    by (simp add: build_oauth_headers_def oauth_params0_def)
  then have "post_tweet L ?E self c = post_tweet L E self c" for self c
    by (simp add: post_tweet_def split: sum.split)
  then have "twitter_publish L ?E self c = twitter_publish L E self c" for self c
    by (simp add: twitter_publish_def)
  then have pb: "publish L ?E pub c = publish L E pub c"
    if "get_publisher L E (ascii ''x'') = Inr pub" for pub c
    using tw [OF that] by auto
  show ?thesis
    using pb by (simp add: generate_and_publish_def g gp case_prod_unfold Let_def
        split: sum.split option.split)
qed

text \<open>
  Claim C1.  For every configuration and every behaviour of the collaborators,
  \<open>run\<close> raises nothing and returns the mapping that gives each task's platform the
  outcome of that platform's own task, the exception it raised included; a
  supported requested platform always has its entry.  The entry of a platform does
  not change when the backend and the random source behave differently at other
  prompts than its own, nor does the entry of \<open>x\<close> when the LinkedIn and Medium
  sessions behave differently.
\<close>

theorem run_captures_every_task_failure:
  "snd (run L E config) =
     Inr (map (\<lambda>p. (p, snd (generate_and_publish L E config p))) (map fst (build_tasks config)))
   \<and> (\<forall>p. p \<in> set (platforms config) \<and> p \<in> set SUPPORTED_PLATFORMS \<longrightarrow>
         map_of (projr (snd (run L E config))) p =
           Some (snd (generate_and_publish L E config p)))
   \<and> (\<forall>p f r.
         (\<forall>k. f (user_prompt (pillar config) p) k =
                messages_create E (user_prompt (pillar config) p) k) \<and>
         (\<forall>k. r (user_prompt (pillar config) p) k =
                random_draw E (user_prompt (pillar config) p) k) \<longrightarrow>
         map_of (projr (snd (run L (E\<lparr>messages_create := f, random_draw := r\<rparr>) config))) p =
         map_of (projr (snd (run L E config))) p)
   \<and> (\<forall>s1 s2.
         map_of (projr (snd (run L (E\<lparr>linkedin_session := s1, medium_session := s2\<rparr>) config)))
           (ascii ''x'') =
         map_of (projr (snd (run L E config))) (ascii ''x''))"
proof (intro conjI allI impI)
  show "snd (run L E config) =
     Inr (map (\<lambda>p. (p, snd (generate_and_publish L E config p))) (map fst (build_tasks config)))"
    by (simp add: run_result build_tasks_fst)
next
  fix p
  assume "p \<in> set (platforms config) \<and> p \<in> set SUPPORTED_PLATFORMS"
  then show "map_of (projr (snd (run L E config))) p =
           Some (snd (generate_and_publish L E config p))"
    by (simp add: run_result map_of_graph task_keys_set)
next
  fix p f r
  assume "(\<forall>k. f (user_prompt (pillar config) p) k =
                messages_create E (user_prompt (pillar config) p) k) \<and>
         (\<forall>k. r (user_prompt (pillar config) p) k =
                random_draw E (user_prompt (pillar config) p) k)"
  then have "generate_and_publish L (E\<lparr>messages_create := f, random_draw := r\<rparr>) config p =
         generate_and_publish L E config p"
    using task_depends_on_own_calls [of f config p E r L] by blast
  then show "map_of (projr (snd (run L (E\<lparr>messages_create := f, random_draw := r\<rparr>) config))) p =
         map_of (projr (snd (run L E config))) p"
    by (simp add: run_result map_of_graph)
next
  fix s1 s2
  show "map_of (projr (snd (run L (E\<lparr>linkedin_session := s1, medium_session := s2\<rparr>) config)))
           (ascii ''x'') =
         map_of (projr (snd (run L E config))) (ascii ''x'')"
    by (simp add: run_result map_of_graph sessions_irrelevant_for_x)
qed

text \<open>
  Claim C2.  For every configuration and every behaviour of the collaborators, the
  mapping that \<open>run\<close> returns has distinct keys, which are exactly the requested
  platforms that are supported (\<open>linkedin\<close>, \<open>medium\<close>, \<open>x\<close>): each of them occurs once
  and no other platform occurs; the tasks launched are one per key.
\<close>

theorem run_one_entry_per_supported_platform:
  "\<exists>m. snd (run L E config) = Inr m
     \<and> distinct (map fst m)
     \<and> set (map fst m) = set (platforms config) \<inter> set SUPPORTED_PLATFORMS
     \<and> (\<forall>p. count_list (map fst m) p =
              (if p \<in> set (platforms config) \<and> p \<in> set SUPPORTED_PLATFORMS then 1 else 0))
     \<and> map snd (build_tasks config) = map GenerateAndPublish (map fst m)
     \<and> length (fst (run L E config)) = length m
     \<and> set SUPPORTED_PLATFORMS = {ascii ''linkedin'', ascii ''medium'', ascii ''x''}"
proof -
  let ?ks = "task_keys [] (platforms config)"
  let ?m = "map (\<lambda>p. (p, snd (generate_and_publish L E config p))) ?ks"
  have k: "map fst ?m = ?ks" by (simp add: comp_def)
  have d: "distinct ?ks" by (simp add: task_keys_distinct)
  have s: "set ?ks = set (platforms config) \<inter> set SUPPORTED_PLATFORMS"
    by (simp add: task_keys_set)
  have c: "count_list ?ks p =
              (if p \<in> set (platforms config) \<and> p \<in> set SUPPORTED_PLATFORMS then 1 else 0)" for p
    using count_list_distinct [OF d, of p] s by auto
  have "snd (run L E config) = Inr ?m" by (rule run_result)
  moreover have "length (fst (run L E config)) = length ?m" by (simp add: run_traces)
  moreover have "set SUPPORTED_PLATFORMS = {ascii ''linkedin'', ascii ''medium'', ascii ''x''}"
    by (simp add: SUPPORTED_PLATFORMS_def)
  ultimately show ?thesis
    using d s c build_tasks_snd [of config] k by (intro exI [of _ ?m]) simp
qed

text \<open>
  Claim C10.  A supported platform that occurs more than once in
  \<open>config.platforms\<close> has exactly one coroutine among the tasks gathered and exactly
  one entry in the mapping returned; the tasks gathered are as many as the
  distinct supported platforms requested.
\<close>

theorem run_duplicates_collapse:
  assumes "p \<in> set SUPPORTED_PLATFORMS" and "1 < count_list (platforms config) p"
  shows "count_list (map snd (build_tasks config)) (GenerateAndPublish p) = 1
     \<and> count_list (map fst (build_tasks config)) p = 1
     \<and> (\<exists>m. snd (run L E config) = Inr m \<and> count_list (map fst m) p = 1)
     \<and> length (fst (run L E config)) = length (build_tasks config)
     \<and> length (build_tasks config) = card (set (platforms config) \<inter> set SUPPORTED_PLATFORMS)"
proof -
  let ?ks = "task_keys [] (platforms config)"
  have d: "distinct ?ks" by (simp add: task_keys_distinct)
  have "p \<in> set (platforms config)"
    using assms(2) by (metis count_notin less_nat_zero_code)
  then have mem: "p \<in> set ?ks" using assms(1) by (simp add: task_keys_set)
  have one: "count_list ?ks p = 1" using count_list_distinct [OF d, of p] mem by simp
  have "distinct (map GenerateAndPublish ?ks)" using d by (simp add: distinct_map inj_on_def)
  then have "count_list (map GenerateAndPublish ?ks) (GenerateAndPublish p) = 1"
    using count_list_distinct [of "map GenerateAndPublish ?ks" "GenerateAndPublish p"] mem
    by simp
  moreover have "length ?ks = card (set (platforms config) \<inter> set SUPPORTED_PLATFORMS)"
    using distinct_card [OF d] by (simp add: task_keys_set)
  moreover have "snd (run L E config) =
      Inr (map (\<lambda>p. (p, snd (generate_and_publish L E config p))) ?ks)"
    by (rule run_result)
  moreover have "map fst (map (\<lambda>p. (p, snd (generate_and_publish L E config p))) ?ks) = ?ks"
    by (simp add: comp_def)
  moreover have "length (build_tasks config) = length ?ks"
    by (simp add: build_tasks_keys)
  ultimately show ?thesis
    using one by (simp add: build_tasks_snd build_tasks_fst run_traces)
qed

subsection \<open>The examples of the orchestrator\<close>

lemma example_prompts_differ:
  "user_prompt (ascii ''career'') (ascii ''x'') \<noteq> user_prompt (ascii ''career'') (ascii ''linkedin'')"
  by (simp add: user_prompt_def PLATFORM_WORD_LIMITS_def ascii_def)

lemma example_task_keys:
  "build_tasks \<lparr> platforms = [ascii ''x'', ascii ''linkedin'', ascii ''bogus''],
                 pillar = pil, dry_run = d \<rparr> =
     [(ascii ''x'', GenerateAndPublish (ascii ''x'')),
      (ascii ''linkedin'', GenerateAndPublish (ascii ''linkedin''))]"
  by (simp add: build_tasks_def SUPPORTED_PLATFORMS_def ascii_def)

text \<open>
  A platform requested three times is gathered once and has one entry.
\<close>

theorem run_duplicates_witness:
  "ascii ''x'' \<in> set SUPPORTED_PLATFORMS
   \<and> 1 < count_list
           (platforms \<lparr> platforms = [ascii ''x'', ascii ''x'', ascii ''linkedin'', ascii ''x''],
                        pillar = ascii ''career'', dry_run = True \<rparr>) (ascii ''x'')
   \<and> build_tasks \<lparr> platforms = [ascii ''x'', ascii ''x'', ascii ''linkedin'', ascii ''x''],
                    pillar = ascii ''career'', dry_run = True \<rparr> =
       [(ascii ''x'', GenerateAndPublish (ascii ''x'')),
        (ascii ''linkedin'', GenerateAndPublish (ascii ''linkedin''))]
   \<and> count_list
         (map snd (build_tasks
            \<lparr> platforms = [ascii ''x'', ascii ''x'', ascii ''linkedin'', ascii ''x''],
              pillar = ascii ''career'', dry_run = True \<rparr>))
         (GenerateAndPublish (ascii ''x'')) = 1
   \<and> length (fst (run example_lib example_env
         \<lparr> platforms = [ascii ''x'', ascii ''x'', ascii ''linkedin'', ascii ''x''],
           pillar = ascii ''career'', dry_run = True \<rparr>)) = 2
   \<and> (\<exists>m. snd (run example_lib example_env
         \<lparr> platforms = [ascii ''x'', ascii ''x'', ascii ''linkedin'', ascii ''x''],
           pillar = ascii ''career'', dry_run = True \<rparr>) = Inr m \<and>
         count_list (map fst m) (ascii ''x'') = 1)"
proof -
  let ?cfg = "\<lparr> platforms = [ascii ''x'', ascii ''x'', ascii ''linkedin'', ascii ''x''],
                pillar = ascii ''career'', dry_run = True \<rparr>"
  have h1: "ascii ''x'' \<in> set SUPPORTED_PLATFORMS"
    by (simp add: SUPPORTED_PLATFORMS_def)
  have h2: "1 < count_list (platforms ?cfg) (ascii ''x'')"
    by (simp add: ascii_def)
  have t: "build_tasks ?cfg =
       [(ascii ''x'', GenerateAndPublish (ascii ''x'')),
        (ascii ''linkedin'', GenerateAndPublish (ascii ''linkedin''))]"
    by (simp add: build_tasks_def SUPPORTED_PLATFORMS_def ascii_def)
  show ?thesis
    using run_duplicates_collapse [OF h1 h2, of example_lib example_env] h1 h2 t
    by simp
qed

text \<open>
  The backend fails three times for \<open>linkedin\<close> and answers for \<open>x\<close>: \<open>run\<close> returns
  both entries, the failure under \<open>linkedin\<close>, and the entry of \<open>x\<close> is the one of the
  world in which the backend never fails.
\<close>

theorem run_captures_witness:
  "snd (run example_lib
          (example_env\<lparr>messages_create :=
             (\<lambda>prompt k. if prompt = user_prompt (ascii ''career'') (ascii ''linkedin'')
                          then api_failed else Inr [TextBlock example_content])\<rparr>)
          \<lparr> platforms = [ascii ''x'', ascii ''linkedin'', ascii ''bogus''],
            pillar = ascii ''career'', dry_run = True \<rparr>) =
     Inr [(ascii ''x'', Inr (ascii ''[DRY RUN] Would publish to x'')),
          (ascii ''linkedin'',
           Inl (Exn ContentGenerationError (ascii ''API error after 3 attempts: boom'')))]
   \<and> map_of (projr (snd (run example_lib
          (example_env\<lparr>messages_create :=
             (\<lambda>prompt k. if prompt = user_prompt (ascii ''career'') (ascii ''linkedin'')
                          then api_failed else Inr [TextBlock example_content])\<rparr>)
          \<lparr> platforms = [ascii ''x'', ascii ''linkedin'', ascii ''bogus''],
            pillar = ascii ''career'', dry_run = True \<rparr>))) (ascii ''x'') =
       map_of (projr (snd (run example_lib example_env
          \<lparr> platforms = [ascii ''x'', ascii ''linkedin'', ascii ''bogus''],
            pillar = ascii ''career'', dry_run = True \<rparr>))) (ascii ''x'')"
proof -
  let ?f = "\<lambda>prompt k. if prompt = user_prompt (ascii ''career'') (ascii ''linkedin'')
                          then api_failed else Inr [TextBlock example_content]"
  let ?E = "example_env\<lparr>messages_create := ?f\<rparr>"
  let ?cfg = "\<lparr> platforms = [ascii ''x'', ascii ''linkedin'', ascii ''bogus''],
            pillar = ascii ''career'', dry_run = True \<rparr>"
  have dry_x: "ascii ''[DRY RUN] Would publish to '' @ ascii ''x'' =
      ascii ''[DRY RUN] Would publish to x''"
    by (simp add: ascii_def)
  have gx: "generate ?E (ascii ''career'') (ascii ''x'') =
      ([MessagesCreate (user_prompt (ascii ''career'') (ascii ''x''))], Inr (Some example_content))"
    using example_prompts_differ by (simp add: retry_eval_defs)
  have gl: "snd (generate ?E (ascii ''career'') (ascii ''linkedin'')) =
      Inl (Exn ContentGenerationError (ascii ''API error after 3 attempts: boom''))"
    by (simp add: retry_eval_defs ascii_def)
  have tx: "snd (generate_and_publish example_lib ?E ?cfg (ascii ''x'')) =
      Inr (ascii ''[DRY RUN] Would publish to x'')"
    using example_content_passes(1) [of example_lib] dry_x
    by (simp add: generate_and_publish_def gx)
  have tl: "snd (generate_and_publish example_lib ?E ?cfg (ascii ''linkedin'')) =
      Inl (Exn ContentGenerationError (ascii ''API error after 3 attempts: boom''))"
    using gl by (simp add: generate_and_publish_def case_prod_unfold)
  have same: "\<forall>k. ?f (user_prompt (pillar ?cfg) (ascii ''x'')) k =
                messages_create example_env (user_prompt (pillar ?cfg) (ascii ''x'')) k"
    using example_prompts_differ by (simp add: example_env_def)
  have upd: "example_env\<lparr>messages_create := ?f, random_draw := random_draw example_env\<rparr> = ?E"
    by simp
  from run_captures_every_task_failure [of example_lib ?E ?cfg]
  have r: "snd (run example_lib ?E ?cfg) =
     Inr [(ascii ''x'', Inr (ascii ''[DRY RUN] Would publish to x'')),
          (ascii ''linkedin'',
           Inl (Exn ContentGenerationError (ascii ''API error after 3 attempts: boom'')))]"
    by (simp add: example_task_keys tx tl)
  note isolated =
    conjunct1 [OF conjunct2 [OF conjunct2
      [OF run_captures_every_task_failure [of example_lib example_env ?cfg]]]]
  from isolated [THEN spec, of "ascii ''x''", THEN spec, of ?f, THEN spec,
      of "random_draw example_env"] same
  have "map_of (projr (snd (run example_lib
            (example_env\<lparr>messages_create := ?f, random_draw := random_draw example_env\<rparr>) ?cfg)))
          (ascii ''x'') =
        map_of (projr (snd (run example_lib example_env ?cfg))) (ascii ''x'')"
    by simp
  then show ?thesis using r upd by simp
qed

text \<open>
  Content that is too short is rejected before any publisher event; under dry-run
  content that passes yields the synthetic status and the tasks of \<open>run\<close> only call
  the backend; without dry-run the same content reaches the publisher registry.
\<close>

theorem no_publisher_witness:
  "snd (generate (example_env\<lparr>messages_create := (\<lambda>p k. Inr [TextBlock (ascii ''short'')])\<rparr>)
          (ascii ''career'') (ascii ''x'')) = Inr (Some (ascii ''short''))
   \<and> \<not> passed (validate example_lib (ascii ''short'') (ascii ''x''))
   \<and> generate_and_publish example_lib
         (example_env\<lparr>messages_create := (\<lambda>p k. Inr [TextBlock (ascii ''short'')])\<rparr>)
         \<lparr> platforms = [ascii ''x''], pillar = ascii ''career'', dry_run = False \<rparr>
         (ascii ''x'') =
       ([MessagesCreate (user_prompt (ascii ''career'') (ascii ''x''))],
        Inl (Exn ValueError
               (ascii ''Validation failed for x: ['' @ [39] @
                ascii ''Content is empty or too short'' @ [39] @ ascii '']'')))
   \<and> snd (generate example_env (ascii ''career'') (ascii ''x'')) = Inr (Some example_content)
   \<and> passed (validate example_lib example_content (ascii ''x''))
   \<and> generate_and_publish example_lib example_env
         \<lparr> platforms = [ascii ''x'', ascii ''linkedin'', ascii ''bogus''],
           pillar = ascii ''career'', dry_run = True \<rparr> (ascii ''x'') =
       ([MessagesCreate (user_prompt (ascii ''career'') (ascii ''x''))],
        Inr (ascii ''[DRY RUN] Would publish to x''))
   \<and> fst (run example_lib example_env
         \<lparr> platforms = [ascii ''x'', ascii ''linkedin'', ascii ''bogus''],
           pillar = ascii ''career'', dry_run = True \<rparr>) =
       [[MessagesCreate (user_prompt (ascii ''career'') (ascii ''x''))],
        [MessagesCreate (user_prompt (ascii ''career'') (ascii ''linkedin''))]]
   \<and> GetPublisher (ascii ''x'') \<in>
       set (fst (generate_and_publish example_lib example_env
         \<lparr> platforms = [ascii ''x''], pillar = ascii ''career'', dry_run = False \<rparr>
         (ascii ''x'')))"
proof -
  let ?X = "ascii ''x''"
  let ?ES = "example_env\<lparr>messages_create := (\<lambda>p k. Inr [TextBlock (ascii ''short'')])\<rparr>"
  let ?cfgF = "\<lparr> platforms = [ascii ''x''], pillar = ascii ''career'', dry_run = False \<rparr>"
  let ?cfgT = "\<lparr> platforms = [ascii ''x'', ascii ''linkedin'', ascii ''bogus''],
           pillar = ascii ''career'', dry_run = True \<rparr>"
  have gs: "generate ?ES (ascii ''career'') ?X =
      ([MessagesCreate (user_prompt (ascii ''career'') ?X)], Inr (Some (ascii ''short'')))"
    by (simp add: retry_eval_defs)
  have vs: "\<not> passed (validate example_lib (ascii ''short'') ?X)"
    by (simp add: validate_passed short_content_fails)
  have msg: "ascii ''Validation failed for '' @ ?X @ ascii '': '' @
      repr_list example_lib (failures (validate example_lib (ascii ''short'') ?X)) =
      ascii ''Validation failed for x: ['' @ [39] @
                ascii ''Content is empty or too short'' @ [39] @ ascii '']''"
    unfolding short_content_fails
    by (simp add: repr_list_def example_lib_def ascii_def)
  have dry_x: "ascii ''[DRY RUN] Would publish to '' @ ?X = ascii ''[DRY RUN] Would publish to x''"
    by (simp add: ascii_def)
  note ge = example_generate [of "ascii ''career''"]
  note ve = example_content_passes [of example_lib]
  have fs: "fst (generate_and_publish example_lib ?ES ?cfgF ?X) =
      [MessagesCreate (user_prompt (ascii ''career'') ?X)]"
    using vs by (simp add: generate_and_publish_def gs)
  have ft: "fst (generate_and_publish example_lib example_env ?cfgT p) =
      [MessagesCreate (user_prompt (ascii ''career'') p)]"
    if "passed (validate example_lib example_content p)" for p
    using that by (simp add: generate_and_publish_def ge)
  have rt: "fst (run example_lib example_env ?cfgT) =
       [[MessagesCreate (user_prompt (ascii ''career'') ?X)],
        [MessagesCreate (user_prompt (ascii ''career'') (ascii ''linkedin''))]]"
    using ft [OF ve(1)] ft [OF ve(2)]
    by (simp add: run_def example_task_keys gather_return_exceptions_def)
  from no_publisher_on_rejection_or_dry_run [of ?ES ?cfgF ?X example_lib] gs vs
  have os: "snd (generate_and_publish example_lib ?ES ?cfgF ?X) =
      Inl (Exn ValueError
               (ascii ''Validation failed for x: ['' @ [39] @
                ascii ''Content is empty or too short'' @ [39] @ ascii '']''))"
    by (simp add: msg)
  from no_publisher_on_rejection_or_dry_run [of example_env ?cfgT ?X example_lib] ge ve(1)
  have ot: "snd (generate_and_publish example_lib example_env ?cfgT ?X) =
      Inr (ascii ''[DRY RUN] Would publish to x'')"
    by (simp add: dry_x)
  from no_publisher_on_rejection_or_dry_run [of example_env ?cfgF ?X example_lib] ge ve(1)
  have gp: "GetPublisher ?X \<in> set (fst (generate_and_publish example_lib example_env ?cfgF ?X))"
    by simp
  show ?thesis
    using gs vs fs os ge [of ?X] ve(1) ft [OF ve(1)] ot rt gp
    by (simp add: prod_eq_iff)
qed

section \<open>Properties of the request signing\<close>

subsection \<open>Percent-encoding and base64 stay within ASCII\<close>

lemma utf8_char_ascii: "c < 128 \<Longrightarrow> utf8_char c = Some [c]"
  by (simp add: utf8_char_def)

lemma encode_utf8_ascii: "\<forall>c \<in> set s. c < 128 \<Longrightarrow> encode_utf8 s = Inr s"
  by (induction s) (simp_all add: utf8_char_ascii)

lemma encode_utf8_append:
  "encode_utf8 (a @ b) =
     and_then (encode_utf8 a) (\<lambda>x. and_then (encode_utf8 b) (\<lambda>y. Inr (x @ y)))"
  by (induction a) (auto simp: and_then_def split: option.split sum.split)

lemma always_safe_ascii: "always_safe c \<Longrightarrow> c < 128"
  by (auto simp: always_safe_def is_upper_ascii_def is_lower_ascii_def is_digit_ascii_def)

lemma hex_digit_ascii: "n < 16 \<Longrightarrow> hex_digit n < 128"
  by (simp add: hex_digit_def)

lemma quote_byte_ascii: "b < 256 \<Longrightarrow> \<forall>c \<in> set (quote_byte b). c < 128"
  using always_safe_ascii [of b] by (simp add: quote_byte_def hex_digit_ascii)

lemma utf8_char_bytes: "utf8_char c = Some bs \<Longrightarrow> \<forall>b \<in> set bs. b < 256"
  by (auto simp: utf8_char_def split: if_splits)

lemma encode_utf8_bytes: "encode_utf8 s = Inr bs \<Longrightarrow> \<forall>b \<in> set bs. b < 256"
proof (induction s arbitrary: bs)
  case Nil
  then show ?case by simp
next
  case (Cons c cs)
  then show ?case
    using utf8_char_bytes [of c]
    by (auto split: option.splits sum.splits)
qed

lemma quote_ascii_out:
  assumes "quote s = Inr q"
  shows "\<forall>c \<in> set q. c < 128"
proof -
  from assms obtain bs where bs: "encode_utf8 s = Inr bs" "q = concat (map quote_byte bs)"
    by (auto simp: quote_def split: sum.splits)
  show ?thesis
  proof
    fix c
    assume "c \<in> set q"
    then obtain b where "b \<in> set bs" "c \<in> set (quote_byte b)"
      using bs(2) by auto
    then show "c < 128"
      using encode_utf8_bytes [OF bs(1)] quote_byte_ascii [of b] by blast
  qed
qed

lemma quote_of_ascii: "\<forall>c \<in> set s. c < 128 \<Longrightarrow> quote s = Inr (concat (map quote_byte s))"
  by (simp add: quote_def encode_utf8_ascii)

lemma concat_quote_safe: "\<forall>c \<in> set s. always_safe c \<Longrightarrow> concat (map quote_byte s) = s"
  by (induction s) (simp_all add: quote_byte_def)

lemma quote_safe: "\<forall>c \<in> set s. always_safe c \<Longrightarrow> quote s = Inr s"
  using always_safe_ascii by (simp add: quote_of_ascii concat_quote_safe)

lemma str_nat_safe: "\<forall>c \<in> set (str_nat n). always_safe c"
proof (induction n rule: str_nat.induct)
  case (1 n)
  show ?case
  proof (cases "n < 10")
    case True
    then show ?thesis
      by (subst str_nat.simps) (simp add: always_safe_def is_digit_ascii_def del: str_nat.simps)
  next
    case False
    have "n mod 10 < 10" by simp
    then have "n mod 10 \<le> 9" by linarith
    then have "always_safe (48 + n mod 10)" by (simp add: always_safe_def is_digit_ascii_def)
    with 1 False show ?thesis by (subst str_nat.simps) (simp del: str_nat.simps)
  qed
qed

lemma str_int_safe: "\<forall>c \<in> set (str_int i). always_safe c"
  using str_nat_safe by (simp add: str_int_def always_safe_def del: str_nat.simps)

lemma b64_char_ascii: "b64_char i < 128"
  by (auto simp: b64_char_def)

lemma b64encode_ascii: "\<forall>c \<in> set (b64encode bs). c < 128"
  by (induction bs rule: b64encode.induct) (simp_all add: b64_char_ascii)

subsection \<open>The order of the parameters\<close>

lemma sorted_params0: "sorted_items (oauth_params0 E self) = oauth_params0 E self"
  by (simp add: sorted_items_def oauth_params0_def item_le_def ascii_def)

lemma sorted_params_signed:
  "sorted_items (dict_set (oauth_params0 E self) (ascii ''oauth_signature'') sig) =
     [(ascii ''oauth_consumer_key'', consumer_key self),
      (ascii ''oauth_nonce'', token_hex E),
      (ascii ''oauth_signature'', sig),
      (ascii ''oauth_signature_method'', ascii ''HMAC-SHA1''),
      (ascii ''oauth_timestamp'', str_int (py_int (clock E))),
      (ascii ''oauth_token'', access_token self),
      (ascii ''oauth_version'', ascii ''1.0'')]"
  by (simp add: sorted_items_def oauth_params0_def item_le_def ascii_def)

lemma quote_keys:
  "quote (ascii ''oauth_consumer_key'') = Inr (ascii ''oauth_consumer_key'')"
  "quote (ascii ''oauth_nonce'') = Inr (ascii ''oauth_nonce'')"
  "quote (ascii ''oauth_signature'') = Inr (ascii ''oauth_signature'')"
  "quote (ascii ''oauth_signature_method'') = Inr (ascii ''oauth_signature_method'')"
  "quote (ascii ''oauth_timestamp'') = Inr (ascii ''oauth_timestamp'')"
  "quote (ascii ''oauth_token'') = Inr (ascii ''oauth_token'')"
  "quote (ascii ''oauth_version'') = Inr (ascii ''oauth_version'')"
  "quote (ascii ''HMAC-SHA1'') = Inr (ascii ''HMAC-SHA1'')"
  "quote (ascii ''1.0'') = Inr (ascii ''1.0'')"
  by (rule quote_safe, simp add: ascii_def always_safe_def is_upper_ascii_def
      is_lower_ascii_def is_digit_ascii_def)+

subsection \<open>The header\<close>

lemma concat_quote_ascii:
  assumes "\<forall>c \<in> set s. c < 128"
  shows "\<forall>c \<in> set (concat (map quote_byte s)). c < 128"
proof
  fix c
  assume "c \<in> set (concat (map quote_byte s))"
  then obtain b where b: "b \<in> set s" "c \<in> set (quote_byte b)" by auto
  then have "b < 256" using assms by fastforce
  then show "c < 128" using quote_byte_ascii [of b] b(2) by blast
qed

lemma oauth_params_same:
  "token_hex E' = token_hex E \<Longrightarrow> py_int (clock E') = py_int (clock E) \<Longrightarrow>
   oauth_params0 E' self = oauth_params0 E self"
  by (simp add: oauth_params0_def)

lemma build_oauth_headers_same:
  assumes "token_hex E' = token_hex E" and "py_int (clock E') = py_int (clock E)"
  shows "build_oauth_headers L E' self method url = build_oauth_headers L E self method url"
  by (simp add: build_oauth_headers_def oauth_params_same [OF assms])

lemma build_oauth_headers_explicit:
  assumes ck: "quote (consumer_key self) = Inr qck"
    and n: "quote (token_hex E) = Inr qn"
    and tok: "quote (access_token self) = Inr qtok"
    and u: "quote url = Inr qurl"
    and cs: "quote (consumer_secret self) = Inr qcs"
    and ts: "quote (access_token_secret self) = Inr qts"
    and m: "encode_utf8 (str_upper L method) = Inr mb"
  defines "stamp \<equiv> str_int (py_int (clock E))"
  defines "param_string \<equiv> join [38]
               [ascii ''oauth_consumer_key'' @ [61] @ qck,
                ascii ''oauth_nonce'' @ [61] @ qn,
                ascii ''oauth_signature_method'' @ [61] @ ascii ''HMAC-SHA1'',
                ascii ''oauth_timestamp'' @ [61] @ stamp,
                ascii ''oauth_token'' @ [61] @ qtok,
                ascii ''oauth_version'' @ [61] @ ascii ''1.0'']"
  defines "base \<equiv> mb @ [38] @ qurl @ [38] @ concat (map quote_byte param_string)"
  defines "signature \<equiv> b64encode (hmac_sha1 L (qcs @ [38] @ qts) base)"
  shows "build_oauth_headers L E self method url =
           Inr [(ascii ''Authorization'',
                 ascii ''OAuth '' @ join (ascii '', '')
                   [ascii ''oauth_consumer_key'' @ [61, 34] @ qck @ [34],
                    ascii ''oauth_nonce'' @ [61, 34] @ qn @ [34],
                    ascii ''oauth_signature'' @ [61, 34] @
                      concat (map quote_byte signature) @ [34],
                    ascii ''oauth_signature_method'' @ [61, 34] @ ascii ''HMAC-SHA1'' @ [34],
                    ascii ''oauth_timestamp'' @ [61, 34] @ stamp @ [34],
                    ascii ''oauth_token'' @ [61, 34] @ qtok @ [34],
                    ascii ''oauth_version'' @ [61, 34] @ ascii ''1.0'' @ [34]])]"
proof -
  have qstamp: "quote stamp = Inr stamp"
    unfolding stamp_def by (rule quote_safe [OF str_int_safe])
  have astamp: "\<forall>c \<in> set stamp. c < 128"
    unfolding stamp_def using str_int_safe always_safe_ascii by blast
  note aq = quote_ascii_out [OF ck] quote_ascii_out [OF n] quote_ascii_out [OF tok]
    quote_ascii_out [OF u] quote_ascii_out [OF cs] quote_ascii_out [OF ts]
  have r1: "render_items [61] [] (sorted_items (oauth_params0 E self)) =
      Inr [ascii ''oauth_consumer_key'' @ [61] @ qck,
                ascii ''oauth_nonce'' @ [61] @ qn,
                ascii ''oauth_signature_method'' @ [61] @ ascii ''HMAC-SHA1'',
                ascii ''oauth_timestamp'' @ [61] @ stamp,
                ascii ''oauth_token'' @ [61] @ qtok,
                ascii ''oauth_version'' @ [61] @ ascii ''1.0'']"
    unfolding sorted_params0
    using qstamp
    by (simp add: oauth_params0_def render_item_def quote_keys ck n tok stamp_def)
  have lits: "\<forall>c \<in> set (ascii ''oauth_consumer_key''). c < 128"
    "\<forall>c \<in> set (ascii ''oauth_nonce''). c < 128"
    "\<forall>c \<in> set (ascii ''oauth_signature_method''). c < 128"
    "\<forall>c \<in> set (ascii ''HMAC-SHA1''). c < 128"
    "\<forall>c \<in> set (ascii ''oauth_timestamp''). c < 128"
    "\<forall>c \<in> set (ascii ''oauth_token''). c < 128"
    "\<forall>c \<in> set (ascii ''oauth_version''). c < 128"
    "\<forall>c \<in> set (ascii ''1.0''). c < 128"
    by (simp_all add: ascii_def)
  have aps: "\<forall>c \<in> set param_string. c < 128"
    unfolding param_string_def using aq lits astamp by (simp add: ball_Un)
  have qps: "quote param_string = Inr (concat (map quote_byte param_string))"
    by (rule quote_of_ascii [OF aps])
  have ekey: "encode_utf8 (qcs @ [38] @ qts) = Inr (qcs @ [38] @ qts)"
    by (rule encode_utf8_ascii) (use aq in \<open>simp add: ball_Un\<close>)
  have erest: "encode_utf8 ([38] @ qurl @ [38] @ concat (map quote_byte param_string)) =
      Inr ([38] @ qurl @ [38] @ concat (map quote_byte param_string))"
    by (rule encode_utf8_ascii) (use aq concat_quote_ascii [OF aps] in \<open>simp add: ball_Un\<close>)
  have ebase: "encode_utf8 (str_upper L method @ [38] @ qurl @ [38] @
        concat (map quote_byte param_string)) = Inr base"
    using encode_utf8_append [of "str_upper L method"
        "[38] @ qurl @ [38] @ concat (map quote_byte param_string)"] m erest
    by (simp add: and_then_def base_def)
  have qsig: "quote signature = Inr (concat (map quote_byte signature))"
    unfolding signature_def by (rule quote_of_ascii [OF b64encode_ascii])
  have r2: "render_items [61, 34] [34]
       (sorted_items (dict_set (oauth_params0 E self) (ascii ''oauth_signature'') signature)) =
      Inr [ascii ''oauth_consumer_key'' @ [61, 34] @ qck @ [34],
                    ascii ''oauth_nonce'' @ [61, 34] @ qn @ [34],
                    ascii ''oauth_signature'' @ [61, 34] @
                      concat (map quote_byte signature) @ [34],
                    ascii ''oauth_signature_method'' @ [61, 34] @ ascii ''HMAC-SHA1'' @ [34],
                    ascii ''oauth_timestamp'' @ [61, 34] @ stamp @ [34],
                    ascii ''oauth_token'' @ [61, 34] @ qtok @ [34],
                    ascii ''oauth_version'' @ [61, 34] @ ascii ''1.0'' @ [34]]"
    unfolding sorted_params_signed
    using qstamp qsig
    by (simp add: render_item_def quote_keys ck n tok stamp_def)
  show ?thesis
    by (simp only: build_oauth_headers_def Let_def r1 and_then_def sum.case
        param_string_def [symmetric] u qps cs ts ekey ebase signature_def [symmetric] r2)
qed

text \<open>
  Claim C8.  The header is a function of the nonce, the integer timestamp, the
  credentials, the method and the URL: two worlds that give the same nonce and
  the same timestamp give the same result.  When the inputs can be
  percent-encoded, the result is the one header \<open>Authorization\<close> whose value is
  \<open>OAuth\<close> followed by the seven parameters in the order of their keys, each as
  key, \<open>=\<close> and the quoted percent-encoded value, separated by a comma and a space.
  The signature among them is the base64 text of the HMAC-SHA1 digest, under the
  key made of the percent-encoded consumer secret, \<open>&\<close> and the percent-encoded
  token secret, of the upper-cased method, \<open>&\<close>, the percent-encoded URL, \<open>&\<close> and the
  percent-encoded parameter string; the parameter string joins with \<open>&\<close> the six
  other parameters as key, \<open>=\<close> and percent-encoded value, in the order of their keys.
\<close>

theorem oauth_header_reproducible:
  "(token_hex E' = token_hex E \<and> py_int (clock E') = py_int (clock E) \<longrightarrow>
      build_oauth_headers L E' self method url = build_oauth_headers L E self method url)
   \<and> (\<forall>qck qn qtok qurl qcs qts mb.
        quote (consumer_key self) = Inr qck \<and> quote (token_hex E) = Inr qn \<and>
        quote (access_token self) = Inr qtok \<and> quote url = Inr qurl \<and>
        quote (consumer_secret self) = Inr qcs \<and>
        quote (access_token_secret self) = Inr qts \<and>
        encode_utf8 (str_upper L method) = Inr mb \<longrightarrow>
        (let stamp = str_int (py_int (clock E));
             param_string = join [38]
               [ascii ''oauth_consumer_key'' @ [61] @ qck,
                ascii ''oauth_nonce'' @ [61] @ qn,
                ascii ''oauth_signature_method'' @ [61] @ ascii ''HMAC-SHA1'',
                ascii ''oauth_timestamp'' @ [61] @ stamp,
                ascii ''oauth_token'' @ [61] @ qtok,
                ascii ''oauth_version'' @ [61] @ ascii ''1.0''];
             base = mb @ [38] @ qurl @ [38] @ concat (map quote_byte param_string);
             signature = b64encode (hmac_sha1 L (qcs @ [38] @ qts) base)
         in build_oauth_headers L E self method url =
              Inr [(ascii ''Authorization'',
                    ascii ''OAuth '' @ join (ascii '', '')
                      [ascii ''oauth_consumer_key'' @ [61, 34] @ qck @ [34],
                       ascii ''oauth_nonce'' @ [61, 34] @ qn @ [34],
                       ascii ''oauth_signature'' @ [61, 34] @
                         concat (map quote_byte signature) @ [34],
                       ascii ''oauth_signature_method'' @ [61, 34] @
                         ascii ''HMAC-SHA1'' @ [34],
                       ascii ''oauth_timestamp'' @ [61, 34] @ stamp @ [34],
                       ascii ''oauth_token'' @ [61, 34] @ qtok @ [34],
                       ascii ''oauth_version'' @ [61, 34] @ ascii ''1.0'' @ [34]])]))"
proof (intro conjI allI impI)
  assume "token_hex E' = token_hex E \<and> py_int (clock E') = py_int (clock E)"
  then show "build_oauth_headers L E' self method url = build_oauth_headers L E self method url"
    using build_oauth_headers_same by blast
next
  fix qck qn qtok qurl qcs qts mb
  assume h: "quote (consumer_key self) = Inr qck \<and> quote (token_hex E) = Inr qn \<and>
        quote (access_token self) = Inr qtok \<and> quote url = Inr qurl \<and>
        quote (consumer_secret self) = Inr qcs \<and>
        quote (access_token_secret self) = Inr qts \<and>
        encode_utf8 (str_upper L method) = Inr mb"
  show "(let stamp = str_int (py_int (clock E));
             param_string = join [38]
               [ascii ''oauth_consumer_key'' @ [61] @ qck,
                ascii ''oauth_nonce'' @ [61] @ qn,
                ascii ''oauth_signature_method'' @ [61] @ ascii ''HMAC-SHA1'',
                ascii ''oauth_timestamp'' @ [61] @ stamp,
                ascii ''oauth_token'' @ [61] @ qtok,
                ascii ''oauth_version'' @ [61] @ ascii ''1.0''];
             base = mb @ [38] @ qurl @ [38] @ concat (map quote_byte param_string);
             signature = b64encode (hmac_sha1 L (qcs @ [38] @ qts) base)
         in build_oauth_headers L E self method url =
              Inr [(ascii ''Authorization'',
                    ascii ''OAuth '' @ join (ascii '', '')
                      [ascii ''oauth_consumer_key'' @ [61, 34] @ qck @ [34],
                       ascii ''oauth_nonce'' @ [61, 34] @ qn @ [34],
                       ascii ''oauth_signature'' @ [61, 34] @
                         concat (map quote_byte signature) @ [34],
                       ascii ''oauth_signature_method'' @ [61, 34] @
                         ascii ''HMAC-SHA1'' @ [34],
                       ascii ''oauth_timestamp'' @ [61, 34] @ stamp @ [34],
                       ascii ''oauth_token'' @ [61, 34] @ qtok @ [34],
                       ascii ''oauth_version'' @ [61, 34] @ ascii ''1.0'' @ [34]])])"
    unfolding Let_def
    using h by (intro build_oauth_headers_explicit) simp_all
qed

lemmas oauth_eval_defs = build_oauth_headers_def oauth_params0_def sorted_items_def item_le_def
   render_item_def quote_def quote_byte_def always_safe_def utf8_char_def hex_digit_def and_then_def
   py_int_def str_int_def b64_char_def is_upper_ascii_def is_lower_ascii_def is_digit_ascii_def

text \<open>
  Two worlds with clocks 0.4 seconds apart and the same nonce sign alike; a space
  and a slash in the credentials and the reserved characters of the URL are
  percent-encoded, and so is the padding of the signature.
\<close>

theorem oauth_header_witness:
  "token_hex (example_env\<lparr>clock := 1700000000.9, environ := Map.empty\<rparr>) = token_hex example_env
   \<and> py_int (clock (example_env\<lparr>clock := 1700000000.9, environ := Map.empty\<rparr>)) =
       py_int (clock example_env)
   \<and> build_oauth_headers example_lib
         (example_env\<lparr>clock := 1700000000.9, environ := Map.empty\<rparr>) example_self
         (ascii ''post'') TWEET_ENDPOINT =
       build_oauth_headers example_lib example_env example_self (ascii ''post'') TWEET_ENDPOINT
   \<and> quote (consumer_key example_self) = Inr (ascii ''c%20k'')
   \<and> quote (access_token_secret example_self) = Inr (ascii ''t%2Fs'')
   \<and> quote TWEET_ENDPOINT = Inr (ascii ''https%3A%2F%2Fapi.x.com%2F2%2Ftweets'')
   \<and> encode_utf8 (str_upper example_lib (ascii ''post'')) = Inr (ascii ''POST'')
   \<and> build_oauth_headers example_lib example_env example_self (ascii ''post'') TWEET_ENDPOINT =
       Inr [(ascii ''Authorization'',
             ascii ''OAuth '' @ join (ascii '', '')
               [ascii ''oauth_consumer_key='' @ [34] @ ascii ''c%20k'' @ [34],
                ascii ''oauth_nonce='' @ [34] @ ascii ''0123456789abcdef0123456789abcdef'' @ [34],
                ascii ''oauth_signature='' @ [34] @ ascii ''AAAAAAAAAAAAAAAAAAAAAAAAAAA%3D'' @ [34],
                ascii ''oauth_signature_method='' @ [34] @ ascii ''HMAC-SHA1'' @ [34],
                ascii ''oauth_timestamp='' @ [34] @ ascii ''1700000000'' @ [34],
                ascii ''oauth_token='' @ [34] @ ascii ''tok'' @ [34],
                ascii ''oauth_version='' @ [34] @ ascii ''1.0'' @ [34]])]"
proof -
  let ?E' = "example_env\<lparr>clock := 1700000000.9, environ := Map.empty\<rparr>"
  have h1: "token_hex ?E' = token_hex example_env" by simp
  have h2: "py_int (clock ?E') = py_int (clock example_env)"
    by (simp add: py_int_def example_env_def)
  have q: "quote (consumer_key example_self) = Inr (ascii ''c%20k'')"
    "quote (token_hex example_env) = Inr (ascii ''0123456789abcdef0123456789abcdef'')"
    "quote (access_token example_self) = Inr (ascii ''tok'')"
    "quote TWEET_ENDPOINT = Inr (ascii ''https%3A%2F%2Fapi.x.com%2F2%2Ftweets'')"
    "quote (consumer_secret example_self) = Inr (ascii ''cs'')"
    "quote (access_token_secret example_self) = Inr (ascii ''t%2Fs'')"
    "encode_utf8 (str_upper example_lib (ascii ''post'')) = Inr (ascii ''POST'')"
    by (simp_all add: oauth_eval_defs example_self_def example_env_def example_lib_def
        TWEET_ENDPOINT_def ascii_def)
  note inst = oauth_header_reproducible [of ?E' example_env example_lib example_self "ascii ''post''" TWEET_ENDPOINT]
  have same: "build_oauth_headers example_lib ?E' example_self (ascii ''post'') TWEET_ENDPOINT =
       build_oauth_headers example_lib example_env example_self (ascii ''post'') TWEET_ENDPOINT"
    using inst h1 h2 by blast
  from inst q
  have "build_oauth_headers example_lib example_env example_self (ascii ''post'') TWEET_ENDPOINT =
       Inr [(ascii ''Authorization'',
             ascii ''OAuth '' @ join (ascii '', '')
               [ascii ''oauth_consumer_key='' @ [34] @ ascii ''c%20k'' @ [34],
                ascii ''oauth_nonce='' @ [34] @ ascii ''0123456789abcdef0123456789abcdef'' @ [34],
                ascii ''oauth_signature='' @ [34] @ ascii ''AAAAAAAAAAAAAAAAAAAAAAAAAAA%3D'' @ [34],
                ascii ''oauth_signature_method='' @ [34] @ ascii ''HMAC-SHA1'' @ [34],
                ascii ''oauth_timestamp='' @ [34] @ ascii ''1700000000'' @ [34],
                ascii ''oauth_token='' @ [34] @ ascii ''tok'' @ [34],
                ascii ''oauth_version='' @ [34] @ ascii ''1.0'' @ [34]])]"
    by (simp add: Let_def example_lib_def example_env_def py_int_def str_int_def b64_char_def
        quote_byte_def always_safe_def hex_digit_def is_upper_ascii_def is_lower_ascii_def
        is_digit_ascii_def ascii_def)
  then show ?thesis using h1 h2 same q by simp
qed

end
